theory Spec2Isabelle
  imports Main "HOL-Library.Sublist"
begin

section \<open>Strings and the two directive patterns\<close>

text \<open>
  A JavaScript string is a sequence of code units. The model uses \<^typ>\<open>string\<close>, so a
  code unit is a \<^typ>\<open>char\<close> (the code units below 256). On that range the class
  \<^verbatim>\<open>\s\<close> of a JavaScript regular expression is TAB, LF, VT, FF, CR, SPACE and NBSP.
\<close>

definition isSpace :: "char \<Rightarrow> bool" where
  "isSpace c = (c \<in> set [CHR 0x09, CHR 0x0A, CHR 0x0B, CHR 0x0C, CHR 0x0D, CHR 0x20, CHR 0xA0])"

text \<open>\<^verbatim>\<open>String.prototype.trim\<close>: white space is removed at both ends.\<close>

definition trim :: "string \<Rightarrow> string" where
  "trim s = rev (dropWhile isSpace (rev (dropWhile isSpace s)))"

text \<open>
  The fragment of regular expressions the module uses: a literal character, and a greedy
  repetition of a character class with a minimal count (\<^verbatim>\<open>+\<close> is 1, \<^verbatim>\<open>*\<close> is 0) that is
  a capture group when the flag is set. The classes are \<^verbatim>\<open>\s\<close> and \<^verbatim>\<open>[^c]\<close>.
\<close>

datatype cls = Space | NotChr char

datatype item = Chr char | Rep cls nat bool

fun inCls :: "cls \<Rightarrow> char \<Rightarrow> bool" where
  "inCls Space c = isSpace c"
| "inCls (NotChr x) c = (c \<noteq> x)"

text \<open>
  Backtracking matching at a fixed start, as a JavaScript engine does it: a repetition
  first takes the longest run and gives characters back one at a time while the rest of
  the pattern fails. The result is the list of captures and the unread rest.
\<close>

function matchHere :: "item list \<Rightarrow> string \<Rightarrow> string list \<Rightarrow> (string list \<times> string) option"
  and tryLens :: "item list \<Rightarrow> string \<Rightarrow> string list \<Rightarrow> nat \<Rightarrow> bool \<Rightarrow> nat \<Rightarrow> (string list \<times> string) option"
where
  "matchHere [] s caps = Some (caps, s)"
| "matchHere (Chr c # p) s caps =
     (case s of [] \<Rightarrow> None | x # xs \<Rightarrow> if x = c then matchHere p xs caps else None)"
| "matchHere (Rep k m cap # p) s caps =
     tryLens p s caps m cap (length (takeWhile (inCls k) s))"
| "tryLens p s caps m cap n =
     (if n < m then None
      else (case matchHere p (drop n s) (if cap then caps @ [take n s] else caps) of
              Some r \<Rightarrow> Some r
            | None \<Rightarrow> (if n = 0 then None else tryLens p s caps m cap (n - 1))))"
  by pat_completeness auto
termination
  by (relation "measures [
        (\<lambda>x. case x of Inl (p, s, caps) \<Rightarrow> length p | Inr (p, s, caps, m, cap, n) \<Rightarrow> length p),
        (\<lambda>x. case x of Inl (p, s, caps) \<Rightarrow> 0 | Inr (p, s, caps, m, cap, n) \<Rightarrow> Suc n)]") auto

declare matchHere.simps(3) [simp del] tryLens.simps [simp del]

text \<open>
  \<^verbatim>\<open>description.match(PATTERN)\<close> for a pattern without the global flag: the leftmost
  start at which the pattern matches; the value is the list of the captured groups.
\<close>

fun regexMatch :: "item list \<Rightarrow> string \<Rightarrow> string list option" where
  "regexMatch p [] = (case matchHere p [] [] of Some (caps, _) \<Rightarrow> Some caps | None \<Rightarrow> None)"
| "regexMatch p (x # xs) =
     (case matchHere p (x # xs) [] of Some (caps, _) \<Rightarrow> Some caps | None \<Rightarrow> regexMatch p xs)"

definition lits :: "string \<Rightarrow> item list" where
  "lits s = map Chr s"

text \<open>\<^verbatim>\<open>/\[\[\/r\s+([^\]]+)\]\]/\<close>\<close>

definition ROLL_PATTERN :: "item list" where
  "ROLL_PATTERN = lits ''[[/r'' @ [Rep Space 1 False, Rep (NotChr CHR '']'') 1 True] @ lits '']]''"

text \<open>\<^verbatim>\<open>/\[\[\/r\s+([^\]]+)\]\]\s*@UUID\[([^\]]+)\]\{([^}]*)\}/\<close>\<close>

definition TEXT_PATTERN :: "item list" where
  "TEXT_PATTERN =
     lits ''[[/r'' @ [Rep Space 1 False, Rep (NotChr CHR '']'') 1 True] @ lits '']]''
     @ [Rep Space 0 False] @ lits ''@UUID['' @ [Rep (NotChr CHR '']'') 1 True]
     @ lits '']{'' @ [Rep (NotChr CHR ''}'') 0 True] @ lits ''}''"

definition MAX_RECURSION_DEPTH :: nat where
  "MAX_RECURSION_DEPTH = 10"

section \<open>Table results and the directive parser\<close>

text \<open>
  A \<^verbatim>\<open>TableResult\<close> of the host, with the fields the module reads and writes. A field
  that may be \<^verbatim>\<open>null\<close> or \<^verbatim>\<open>undefined\<close> is an option.
\<close>

record result =
  rtype :: string
  documentUuid :: "string option"
  name :: string
  description :: "string option"
  img :: "string option"

record parsed =
  formula :: string
  uuid :: string
  pname :: string

text \<open>
  The condition \<^verbatim>\<open>result.documentUuid\<close> holds for a non-empty string. A match array
  holds the whole match at index 0 and the groups from index 1; the model keeps the
  groups only, so group \<open>i\<close> is at index \<open>i - 1\<close>.
\<close>

definition parseQuantityResult :: "result \<Rightarrow> parsed option" where
  "parseQuantityResult r =
     (let d = (case description r of None \<Rightarrow> [] | Some t \<Rightarrow> t);
          asDocument =
            (case documentUuid r of
               None \<Rightarrow> None
             | Some u \<Rightarrow>
                 (if rtype r = ''document'' \<and> u \<noteq> []
                  then (case regexMatch ROLL_PATTERN d of
                          Some rollMatch \<Rightarrow> Some \<lparr>formula = rollMatch ! 0, uuid = u, pname = name r\<rparr>
                        | None \<Rightarrow> None)
                  else None))
      in case asDocument of
           Some p \<Rightarrow> Some p
         | None \<Rightarrow>
             (if rtype r = ''text''
              then (case regexMatch TEXT_PATTERN d of
                      Some fullMatch \<Rightarrow>
                        Some \<lparr>formula = fullMatch ! 0, uuid = fullMatch ! 1, pname = fullMatch ! 2\<rparr>
                    | None \<Rightarrow> None)
              else None))"

text \<open>
  The self-contained form in the words of the specification: the roll marker with a
  formula, then a reference and a display name; \<open>selfContained\<close> builds the description
  from its pieces, whatever they are. \<open>wellFormedDirective\<close> is not that form but the
  part of it on which the two patterns capture the pieces exactly as they were written:
  the white space after \<^verbatim>\<open>/r\<close> is not empty, the formula is not empty, does not start
  with white space and has no \<^verbatim>\<open>]\<close>, the reference is not empty and has no \<^verbatim>\<open>]\<close>, and
  the name has no \<^verbatim>\<open>}\<close>. The specification does not rule the other descriptions of
  the form out; on them the parser gives no directive or a shorter capture, as the runs
  with the formula \<^verbatim>\<open>1d4[fire]\<close> and the name \<^verbatim>\<open>Torch {lit}\<close> show below.
\<close>

definition selfContained :: "string \<Rightarrow> string \<Rightarrow> string \<Rightarrow> string \<Rightarrow> string \<Rightarrow> string" where
  "selfContained ws f ws' u n = ''[[/r'' @ ws @ f @ '']]'' @ ws' @ ''@UUID['' @ u @ '']{'' @ n @ ''}''"

definition wellFormedDirective :: "string \<Rightarrow> string \<Rightarrow> string \<Rightarrow> string \<Rightarrow> string \<Rightarrow> bool" where
  "wellFormedDirective ws f ws' u n =
     (ws \<noteq> [] \<and> list_all isSpace ws \<and> f \<noteq> [] \<and> \<not> isSpace (hd f) \<and> CHR '']'' \<notin> set f
      \<and> list_all isSpace ws' \<and> u \<noteq> [] \<and> CHR '']'' \<notin> set u \<and> CHR ''}'' \<notin> set n)"

section \<open>Host, state and the quantity ledger\<close>

text \<open>
  Results are objects with an identity: the ledger is a \<^verbatim>\<open>WeakMap\<close> keyed by the object
  and \<^verbatim>\<open>updateSource\<close> changes the object in place. A result is therefore a reference
  into a store of result objects, and a list of results is a list of references.
\<close>

type_synonym rid = nat

text \<open>What \<^verbatim>\<open>fromUuid\<close> resolves to: a \<^verbatim>\<open>RollTable\<close> (with the identifier its draw is
  asked by), an \<^verbatim>\<open>Item\<close> (with its \<^verbatim>\<open>img\<close>), or a document of another class.\<close>

datatype doc = RollTable string | Item "string option" | OtherDoc

datatype exn = Thrown string

text \<open>The value stored by \<^verbatim>\<open>resultQuantities.set\<close>. The item branch stores an object
  without the property \<^verbatim>\<open>expandedToSubResults\<close>: it is \<open>None\<close> there.\<close>

record qdata =
  q_quantity :: int
  q_documentUuid :: string
  q_name :: string
  expandedToSubResults :: "bool option"

datatype diag = Warn string | Error string exn | Log string int string string

record draw_options =
  displayChat :: "bool option"
  recursive :: "bool option"
  rollMode :: "string option"

record draw_result =
  results :: "rid list"
  roll :: int

record 'w state =
  heap :: "rid \<Rightarrow> result"
  resultQuantities :: "rid \<rightharpoonup> qdata"
  pendingQuantities :: "string \<rightharpoonup> int list"
  console :: "diag list"
  world :: 'w

text \<open>
  The host the module runs in. A call may throw (\<open>Inl\<close>). The total of a roll is an
  integer. The dice roller, the resolver, the settings and the chat act on the host's own
  state \<open>'w\<close>; a table's draw and the observers of a hook are arbitrary code of the host
  and act on the whole state. \<open>tableDraw h t\<close> is what \<^verbatim>\<open>doc.draw\<close> does for the table
  \<open>t\<close>, whatever is installed on \<^verbatim>\<open>RollTable.prototype.draw\<close> at that moment.
\<close>

record 'w host =
  rollTotal :: "string \<Rightarrow> 'w \<Rightarrow> (exn + int) \<times> 'w"
  fromUuid :: "string \<Rightarrow> 'w \<Rightarrow> (exn + doc option) \<times> 'w"
  tableDraw :: "string \<Rightarrow> draw_options \<Rightarrow> 'w state \<Rightarrow> (exn + draw_result) \<times> 'w state"
  settingQuantityPath :: "'w \<Rightarrow> string"
  settingModifyChat :: "'w \<Rightarrow> bool"
  chatCreate :: "string \<Rightarrow> qdata list \<Rightarrow> string option \<Rightarrow> 'w \<Rightarrow> (exn + unit) \<times> 'w"
  hooksCallAll :: "rid list \<Rightarrow> 'w state \<Rightarrow> (exn + unit) \<times> 'w state"

definition MODULE_ID :: string where
  "MODULE_ID = ''table-quantities''"

definition warn :: "string \<Rightarrow> 'w state \<Rightarrow> 'w state" where
  "warn msg s = s\<lparr>console := console s @ [Warn msg]\<rparr>"

definition evaluateFormula :: "'w host \<Rightarrow> string \<Rightarrow> 'w state \<Rightarrow> (exn + int) \<times> 'w state" where
  "evaluateFormula h f s = (case rollTotal h (trim f) (world s) of (v, w) \<Rightarrow> (v, s\<lparr>world := w\<rparr>))"

definition resolveUuid :: "'w host \<Rightarrow> string \<Rightarrow> 'w state \<Rightarrow> (exn + doc option) \<times> 'w state" where
  "resolveUuid h u s = (case fromUuid h u (world s) of (v, w) \<Rightarrow> (v, s\<lparr>world := w\<rparr>))"

text \<open>The host's \<^verbatim>\<open>updateSource\<close>: the given fields replace those of the object.\<close>

definition updateSource :: "result \<Rightarrow> result \<Rightarrow> result" where
  "updateSource r changes =
     r\<lparr>rtype := rtype changes, documentUuid := documentUuid changes, name := name changes,
       description := description changes, img := img changes\<rparr>"

text \<open>\<^verbatim>\<open>for (let i = 0; i < n; i++) body\<close>, where the body may throw.\<close>

fun forLoop :: "nat \<Rightarrow> ('a \<Rightarrow> 's \<Rightarrow> (exn + 'a) \<times> 's) \<Rightarrow> 'a \<Rightarrow> 's \<Rightarrow> (exn + 'a) \<times> 's" where
  "forLoop 0 body acc s = (Inr acc, s)"
| "forLoop (Suc n) body acc s =
     (case body acc s of
        (Inl e, s') \<Rightarrow> (Inl e, s')
      | (Inr acc', s') \<Rightarrow> forLoop n body acc' s')"

lemma forLoop_cong [fundef_cong]:
  "n = n' \<Longrightarrow> acc = acc' \<Longrightarrow> s = s' \<Longrightarrow> (\<And>a t. body a t = body' a t)
   \<Longrightarrow> forLoop n body acc s = forLoop n' body' acc' s'"
proof -
  assume "n = n'" "acc = acc'" "s = s'" and b: "\<And>a t. body a t = body' a t"
  have "body = body'" using b by (intro ext)
  then show ?thesis using \<open>n = n'\<close> \<open>acc = acc'\<close> \<open>s = s'\<close> by simp
qed

section \<open>Result processing\<close>

function processResult :: "'w host \<Rightarrow> rid \<Rightarrow> parsed \<Rightarrow> nat \<Rightarrow> 'w state \<Rightarrow> (exn + rid list) \<times> 'w state"
  and processLoop :: "'w host \<Rightarrow> rid list \<Rightarrow> nat \<Rightarrow> rid list \<Rightarrow> 'w state \<Rightarrow> (exn + rid list) \<times> 'w state"
where
  "processResult h r p depth s =
     (case evaluateFormula h (formula p) s of
        (Inl e, s1) \<Rightarrow> (Inl e, s1)
      | (Inr quantity, s1) \<Rightarrow>
          if quantity \<le> 0 then (Inr [r], s1)
          else
            (case resolveUuid h (uuid p) s1 of
               (Inl e, s2) \<Rightarrow> (Inl e, s2)
             | (Inr None, s2) \<Rightarrow>
                 (Inr [r], warn (MODULE_ID @ '' | Could not resolve UUID: '' @ uuid p) s2)
             | (Inr (Some (RollTable t)), s2) \<Rightarrow>
                 if depth \<ge> MAX_RECURSION_DEPTH
                 then (Inr [r],
                       warn (MODULE_ID @ '' | Max recursion depth reached for table: '' @ pname p) s2)
                 else
                   (case forLoop (nat quantity)
                           (\<lambda>subResults s3.
                              case tableDraw h t
                                     \<lparr>displayChat = Some False, recursive = Some True, rollMode = None\<rparr> s3 of
                                (Inl e, s4) \<Rightarrow> (Inl e, s4)
                              | (Inr drawn, s4) \<Rightarrow>
                                  (case processLoop h (results drawn) (depth + 1) [] s4 of
                                     (Inl e, s5) \<Rightarrow> (Inl e, s5)
                                   | (Inr processed, s5) \<Rightarrow> (Inr (subResults @ processed), s5)))
                           [] s2 of
                      (Inl e, s6) \<Rightarrow> (Inl e, s6)
                    | (Inr subResults, s6) \<Rightarrow>
                        (Inr subResults,
                         s6\<lparr>resultQuantities := (resultQuantities s6)
                              (r \<mapsto> \<lparr>q_quantity = quantity, q_documentUuid = uuid p,
                                     q_name = pname p, expandedToSubResults = Some True\<rparr>)\<rparr>))
             | (Inr (Some (Item itemImg)), s2) \<Rightarrow>
                 (let s3 = (if rtype (heap s2 r) = ''text''
                            then s2\<lparr>heap := (heap s2)
                                   (r := updateSource (heap s2 r)
                                      \<lparr>rtype = ''document'', documentUuid = Some (uuid p),
                                       name = pname p, description = Some [], img = itemImg\<rparr>)\<rparr>
                            else s2);
                      s4 = s3\<lparr>resultQuantities := (resultQuantities s3)
                              (r \<mapsto> \<lparr>q_quantity = quantity, q_documentUuid = uuid p,
                                     q_name = pname p, expandedToSubResults = None\<rparr>)\<rparr>;
                      s5 = (if pendingQuantities s4 (uuid p) = None
                            then s4\<lparr>pendingQuantities := (pendingQuantities s4)(uuid p \<mapsto> [])\<rparr>
                            else s4);
                      s6 = s5\<lparr>pendingQuantities := (pendingQuantities s5)
                              (uuid p \<mapsto> the (pendingQuantities s5 (uuid p)) @ [quantity])\<rparr>
                  in (Inr [r], s6))
             | (Inr (Some OtherDoc), s2) \<Rightarrow>
                 (Inr [r],
                  warn (MODULE_ID @ '' | Unsupported document type for UUID: '' @ uuid p) s2)))"
| "processLoop h [] depth processed s = (Inr processed, s)"
| "processLoop h (r # rs) depth processed s =
     (case parseQuantityResult (heap s r) of
        Some p \<Rightarrow>
          (case processResult h r p depth s of
             (Inl e, s') \<Rightarrow> (Inl e, s')
           | (Inr expanded, s') \<Rightarrow> processLoop h rs depth (processed @ expanded) s')
      | None \<Rightarrow> processLoop h rs depth (processed @ [r]) s)"
  by pat_completeness auto
termination
  by (relation "measures [
        (\<lambda>x. case x of Inl (h, r, p, depth, s) \<Rightarrow> MAX_RECURSION_DEPTH - depth
                      | Inr (h, rs, depth, processed, s) \<Rightarrow> MAX_RECURSION_DEPTH - depth),
        (\<lambda>x. case x of Inl (h, r, p, depth, s) \<Rightarrow> 0
                      | Inr (h, rs, depth, processed, s) \<Rightarrow> Suc (length rs))]") auto

text \<open>\<^verbatim>\<open>processResults(results, depth = 0)\<close>: the loop starts from an empty array.\<close>

definition processResults :: "'w host \<Rightarrow> rid list \<Rightarrow> nat \<Rightarrow> 'w state \<Rightarrow> (exn + rid list) \<times> 'w state" where
  "processResults h rs depth s = processLoop h rs depth [] s"

section \<open>The draw wrapper\<close>

text \<open>
  \<^verbatim>\<open>sendQuantityChat\<close>: the ledger entries of the results, in order; nothing is sent when
  there is none. The message text is built from the entries only, so the host's
  \<^verbatim>\<open>ChatMessage.create\<close> is given the table's name, the entries and the roll mode.
\<close>

definition sendQuantityChat :: "'w host \<Rightarrow> string \<Rightarrow> rid list \<Rightarrow> int \<Rightarrow> string option \<Rightarrow> 'w state \<Rightarrow> (exn + unit) \<times> 'w state" where
  "sendQuantityChat h tableName rs rolled mode s =
     (let quantityEntries = List.map_filter (resultQuantities s) rs
      in if quantityEntries = [] then (Inr (), s)
         else (case chatCreate h tableName quantityEntries mode (world s) of
                 (v, w) \<Rightarrow> (v, s\<lparr>world := w\<rparr>)))"

text \<open>The \<^verbatim>\<open>catch\<close> block of the wrapper; \<open>drawResult\<close> is \<open>None\<close> while the variable
  is still \<^verbatim>\<open>undefined\<close>.\<close>

definition catchDraw :: "(draw_options \<Rightarrow> 'w state \<Rightarrow> (exn + draw_result) \<times> 'w state) \<Rightarrow> draw_options \<Rightarrow> exn \<Rightarrow> draw_result option \<Rightarrow> 'w state \<Rightarrow> (exn + draw_result) \<times> 'w state" where
  "catchDraw wrapped options err drawResult s =
     (let s' = s\<lparr>console := console s @ [Error (MODULE_ID @ '' | Error processing table draw:'') err]\<rparr>
      in case drawResult of
           None \<Rightarrow> wrapped options s'
         | Some d \<Rightarrow> (Inr d, s'))"

text \<open>\<^verbatim>\<open>wrappedDraw(wrapped, options)\<close> on the table named \<open>tableName\<close>; the function
  installed by \<^verbatim>\<open>monkeyPatchDraw\<close> has the same body with the original draw for \<open>wrapped\<close>.\<close>

definition wrappedDraw :: "'w host \<Rightarrow> (draw_options \<Rightarrow> 'w state \<Rightarrow> (exn + draw_result) \<times> 'w state) \<Rightarrow> string \<Rightarrow> draw_options \<Rightarrow> 'w state \<Rightarrow> (exn + draw_result) \<times> 'w state" where
  "wrappedDraw h wrapped tableName options s =
     (case wrapped options s of
        (Inl e, s1) \<Rightarrow> catchDraw wrapped options e None s1
      | (Inr d, s1) \<Rightarrow>
          (case processResults h (results d) 0 s1 of
             (Inl e, s2) \<Rightarrow> catchDraw wrapped options e (Some d) s2
           | (Inr rs, s2) \<Rightarrow>
               (let d' = d\<lparr>results := rs\<rparr>;
                    wantChat = (displayChat options \<noteq> Some False);
                    modify = settingModifyChat h (world s2)
                in case (if wantChat \<and> modify
                         then sendQuantityChat h tableName (results d') (roll d') (rollMode options) s2
                         else (Inr (), s2)) of
                     (Inl e, s3) \<Rightarrow> catchDraw wrapped options e (Some d') s3
                   | (Inr _, s3) \<Rightarrow>
                       (case hooksCallAll h (results d') s3 of
                          (Inl e, s4) \<Rightarrow> catchDraw wrapped options e (Some d') s4
                        | (Inr _, s4) \<Rightarrow> (Inr d', s4)))))"

text \<open>\<^verbatim>\<open>api.getQuantity\<close>\<close>

definition getQuantity :: "'w state \<Rightarrow> rid \<Rightarrow> qdata option" where
  "getQuantity s r = resultQuantities s r"

section \<open>The creation hook\<close>

text \<open>The creation data of the host, a tree of plain JavaScript values.\<close>

datatype jsval = JUndefined | JNull | JBool bool | JNum int | JStr string | JObj "(string \<times> jsval) list"

text \<open>\<^verbatim>\<open>v.k\<close> for a value that is neither \<^verbatim>\<open>null\<close> nor \<^verbatim>\<open>undefined\<close>, and \<^verbatim>\<open>v?.k\<close>.\<close>

definition getProp :: "jsval \<Rightarrow> string \<Rightarrow> jsval" where
  "getProp v k = (case v of JObj kvs \<Rightarrow> (case map_of kvs k of None \<Rightarrow> JUndefined | Some x \<Rightarrow> x)
                          | _ \<Rightarrow> JUndefined)"

definition nullish :: "jsval \<Rightarrow> bool" where
  "nullish v = (v = JUndefined \<or> v = JNull)"

definition optChain :: "jsval \<Rightarrow> string \<Rightarrow> jsval" where
  "optChain v k = (if nullish v then JUndefined else getProp v k)"

definition falsy :: "jsval \<Rightarrow> bool" where
  "falsy v = (v = JUndefined \<or> v = JNull \<or> v = JBool False \<or> v = JNum 0 \<or> v = JStr [])"

text \<open>\<^verbatim>\<open>target[key] = value\<close> on an object: an own property keeps its place, a new one is
  added last.\<close>

fun assign :: "string \<Rightarrow> jsval \<Rightarrow> (string \<times> jsval) list \<Rightarrow> (string \<times> jsval) list" where
  "assign k v [] = [(k, v)]"
| "assign k v ((k', v') # kvs) = (if k' = k then (k, v) # kvs else (k', v') # assign k v kvs)"

text \<open>\<^verbatim>\<open>key.split('.')\<close>\<close>

fun splitDots :: "string \<Rightarrow> string list" where
  "splitDots [] = [[]]"
| "splitDots (c # cs) =
     (if c = CHR ''.'' then [] # splitDots cs
      else (case splitDots cs of [] \<Rightarrow> [[c]] | w # ws \<Rightarrow> (c # w) # ws))"

text \<open>
  Modelled from the spec: the host's \<^verbatim>\<open>foundry.utils.setProperty\<close>, which is not part of
  the repository; the hook applies the quantity at the configured path through it. The
  path is walked from the root, an absent object on the way is created empty, and the last
  segment is assigned. A value on the way that is not an object makes the call throw; an
  empty key changes nothing.
\<close>

fun setAt :: "string list \<Rightarrow> jsval \<Rightarrow> jsval \<Rightarrow> exn + jsval" where
  "setAt [] v target = Inr target"
| "setAt [k] v target =
     (case target of JObj kvs \<Rightarrow> Inr (JObj (assign k v kvs))
                   | _ \<Rightarrow> Inl (Thrown ''TypeError''))"
| "setAt (k # ks) v target =
     (case target of
        JObj kvs \<Rightarrow>
          (case setAt ks v (case map_of kvs k of None \<Rightarrow> JObj [] | Some c \<Rightarrow> c) of
             Inl e \<Rightarrow> Inl e
           | Inr c' \<Rightarrow> Inr (JObj (assign k c' kvs)))
      | _ \<Rightarrow> Inl (Thrown ''TypeError''))"

definition setProperty :: "jsval \<Rightarrow> string \<Rightarrow> jsval \<Rightarrow> exn + jsval" where
  "setProperty object key v = (if key = [] then Inr object else setAt (splitDots key) v object)"

text \<open>Reading along a path of property names (\<^verbatim>\<open>undefined\<close> where a step has no value).\<close>

fun getPath :: "jsval \<Rightarrow> string list \<Rightarrow> jsval" where
  "getPath v [] = v"
| "getPath v (k # ks) = getPath (getProp v k) ks"

text \<open>\<^verbatim>\<open>data?.flags?.core?.sourceId ?? item.flags?.core?.sourceId\<close>\<close>

definition sourceIdOf :: "jsval \<Rightarrow> jsval \<Rightarrow> jsval" where
  "sourceIdOf item data =
     (let fromData = optChain (optChain (optChain data ''flags'') ''core'') ''sourceId''
      in if nullish fromData
         then optChain (optChain (getProp item ''flags'') ''core'') ''sourceId''
         else fromData)"

text \<open>\<^verbatim>\<open>pendingQuantities.get(sourceId)\<close>: the keys of the map are strings.\<close>

definition queueFor :: "'w state \<Rightarrow> jsval \<Rightarrow> int list option" where
  "queueFor s sourceId = (case sourceId of JStr u \<Rightarrow> pendingQuantities s u | _ \<Rightarrow> None)"

text \<open>
  The \<^verbatim>\<open>preCreateItem\<close> hook on the item being created and its creation data. The data
  is changed in place by the source; the model returns the new data.
\<close>

definition preCreateItem :: "'w host \<Rightarrow> jsval \<Rightarrow> jsval \<Rightarrow> 'w state \<Rightarrow> (exn + jsval) \<times> 'w state" where
  "preCreateItem h item data s =
     (let sourceId = sourceIdOf item data
      in if falsy sourceId then (Inr data, s)
         else
           (case queueFor s sourceId of
              None \<Rightarrow> (Inr data, s)
            | Some [] \<Rightarrow> (Inr data, s)
            | Some (quantity # queue) \<Rightarrow>
                (let u = (case sourceId of JStr u \<Rightarrow> u | _ \<Rightarrow> []);
                     s1 = s\<lparr>pendingQuantities :=
                             (if queue = [] then (pendingQuantities s)(u := None)
                              else (pendingQuantities s)(u \<mapsto> queue))\<rparr>;
                     quantityPath = settingQuantityPath h (world s1)
                 in case setProperty data quantityPath (JNum quantity) of
                      Inl e \<Rightarrow> (Inl e, s1)
                    | Inr data' \<Rightarrow>
                        (Inr data',
                         s1\<lparr>console := console s1 @
                              [Log (MODULE_ID @ '' | Applied quantity'') quantity
                                 (case (if nullish (getProp data' ''name'') then getProp item ''name''
                                        else getProp data' ''name'') of JStr n \<Rightarrow> n | _ \<Rightarrow> [])
                                 quantityPath]\<rparr>))))"

text \<open>The state after the \<^verbatim>\<open>console.error\<close> of the wrapper's \<^verbatim>\<open>catch\<close> block.\<close>

definition errorLogged :: "exn \<Rightarrow> 'w state \<Rightarrow> 'w state" where
  "errorLogged e s = s\<lparr>console := console s @ [Error (MODULE_ID @ '' | Error processing table draw:'') e]\<rparr>"

section \<open>Reading the ledger\<close>

text \<open>The queue of a target, empty when the target is not a key; and the marker of a
  record as a condition (an absent property is not set).\<close>

definition pendingOf :: "(string \<rightharpoonup> int list) \<Rightarrow> string \<Rightarrow> int list" where
  "pendingOf m u = (case m u of None \<Rightarrow> [] | Some qs \<Rightarrow> qs)"

definition expandedToChildren :: "qdata \<Rightarrow> bool" where
  "expandedToChildren d = (expandedToSubResults d = Some True)"

text \<open>The invariant of the queues: no key is kept with an empty queue.\<close>

definition noEmptyQueue :: "(string \<rightharpoonup> int list) \<Rightarrow> bool" where
  "noEmptyQueue m = (\<forall>u. m u \<noteq> Some [])"

section \<open>A small host for concrete runs\<close>

text \<open>
  The result objects: 0 is a text row with a full directive for an item, 1 a row linked to
  a table, 2 a row linked to an item, 3 a text row with a directive for a table whose draw
  yields that very row, 4 a text row for a table whose formula gives 0, 5 a row whose
  target does not resolve, 6 a row whose target is an actor, 8 a row whose formula the dice
  roller rejects, 9 to 11 three rows for one item with the quantities 3, 1 and 5; the
  others are plain text. The host's state counts the dice rolls.
\<close>

definition demoHeap :: "rid \<Rightarrow> result" where
  "demoHeap i =
     (if i = 0 then \<lparr>rtype = ''text'', documentUuid = None, name = ''Row 1'',
                      description = Some ''[[/r 1d4]]@UUID[Item.abc]{Torch}'', img = None\<rparr>
      else if i = 1 then \<lparr>rtype = ''document'', documentUuid = Some ''RollTable.xyz'', name = ''Gems'',
                      description = Some ''[[/r 2]]'', img = None\<rparr>
      else if i = 2 then \<lparr>rtype = ''document'', documentUuid = Some ''Item.def'', name = ''Gem'',
                      description = Some ''[[/r 1]]'', img = None\<rparr>
      else if i = 3 then \<lparr>rtype = ''text'', documentUuid = None, name = ''Row 4'',
                      description = Some ''[[/r 1]]@UUID[RollTable.loop]{Loop}'', img = None\<rparr>
      else if i = 4 then \<lparr>rtype = ''text'', documentUuid = None, name = ''Row 5'',
                      description = Some ''[[/r 0]]@UUID[RollTable.xyz]{Gems}'', img = None\<rparr>
      else if i = 5 then \<lparr>rtype = ''document'', documentUuid = Some ''Item.gone'', name = ''Lost'',
                      description = Some ''[[/r 1]]'', img = None\<rparr>
      else if i = 6 then \<lparr>rtype = ''document'', documentUuid = Some ''Actor.bob'', name = ''Bob'',
                      description = Some ''[[/r 3]]'', img = None\<rparr>
      else if i = 8 then \<lparr>rtype = ''document'', documentUuid = Some ''Item.abc'', name = ''Torch'',
                      description = Some ''[[/r oops]]'', img = None\<rparr>
      else if i = 9 then \<lparr>rtype = ''document'', documentUuid = Some ''Item.abc'', name = ''Torch'',
                      description = Some ''[[/r 3]]'', img = None\<rparr>
      else if i = 10 then \<lparr>rtype = ''document'', documentUuid = Some ''Item.abc'', name = ''Torch'',
                      description = Some ''[[/r 1]]'', img = None\<rparr>
      else if i = 11 then \<lparr>rtype = ''document'', documentUuid = Some ''Item.abc'', name = ''Torch'',
                      description = Some ''[[/r 5]]'', img = None\<rparr>
      else \<lparr>rtype = ''text'', documentUuid = None, name = ''Row'',
             description = Some ''A rusty key'', img = None\<rparr>)"

definition demoRoll :: "string \<Rightarrow> nat \<Rightarrow> (exn + int) \<times> nat" where
  "demoRoll f w =
     (if f = ''1d4'' then (Inr 2, Suc w)
      else if f = ''0'' then (Inr 0, Suc w)
      else if f = ''1'' then (Inr 1, Suc w)
      else if f = ''2'' then (Inr 2, Suc w)
      else if f = ''3'' then (Inr 3, Suc w)
      else if f = ''5'' then (Inr 5, Suc w)
      else (Inl (Thrown ''formula''), w))"

definition demoResolve :: "string \<Rightarrow> nat \<Rightarrow> (exn + doc option) \<times> nat" where
  "demoResolve u w =
     (if u = ''Item.abc'' then (Inr (Some (Item (Some ''torch.png''))), w)
      else if u = ''Item.def'' then (Inr (Some (Item None)), w)
      else if u = ''RollTable.xyz'' then (Inr (Some (RollTable ''xyz'')), w)
      else if u = ''RollTable.loop'' then (Inr (Some (RollTable ''loop'')), w)
      else if u = ''Actor.bob'' then (Inr (Some OtherDoc), w)
      else (Inr None, w))"

definition demoDraw :: "string \<Rightarrow> draw_options \<Rightarrow> nat state \<Rightarrow> (exn + draw_result) \<times> nat state" where
  "demoDraw t opts s =
     (if t = ''xyz'' then (Inr \<lparr>results = [2], roll = 1\<rparr>, s)
      else if t = ''loop'' then (Inr \<lparr>results = [3], roll = 1\<rparr>, s)
      else (Inl (Thrown ''table''), s))"

definition demoHost :: "nat host" where
  "demoHost = \<lparr>rollTotal = demoRoll, fromUuid = demoResolve, tableDraw = demoDraw,
                settingQuantityPath = (\<lambda>w. ''system.quantity''), settingModifyChat = (\<lambda>w. True),
                chatCreate = (\<lambda>tableName entries mode w. (Inr (), w)),
                hooksCallAll = (\<lambda>rs s. (Inr (), s))\<rparr>"

definition demoState :: "nat state" where
  "demoState = \<lparr>heap = demoHeap, resultQuantities = Map.empty, pendingQuantities = Map.empty,
                 console = [], world = 0\<rparr>"

text \<open>An original draw that yields the given results, a host whose chat throws, and a
  draw without options.\<close>

definition demoOriginalDraw :: "rid list \<Rightarrow> draw_options \<Rightarrow> nat state \<Rightarrow> (exn + draw_result) \<times> nat state" where
  "demoOriginalDraw rs opts s = (Inr \<lparr>results = rs, roll = 7\<rparr>, s)"

definition chatFailsHost :: "nat host" where
  "chatFailsHost = demoHost\<lparr>chatCreate := (\<lambda>tableName entries mode w. (Inl (Thrown ''chat''), w))\<rparr>"

definition noOptions :: draw_options where
  "noOptions = \<lparr>displayChat = None, recursive = None, rollMode = None\<rparr>"

text \<open>An item with a source reference, creation data with and without that reference,
  and a state whose queue for the item holds the given quantities.\<close>

definition demoItem :: jsval where
  "demoItem = JObj [(''name'', JStr ''Torch''),
                    (''flags'', JObj [(''core'', JObj [(''sourceId'', JStr ''Item.abc'')])])]"

definition demoData :: jsval where
  "demoData = JObj [(''name'', JStr ''Torch''),
                    (''flags'', JObj [(''core'', JObj [(''sourceId'', JStr ''Item.abc'')])]),
                    (''system'', JObj [(''price'', JNum 1)])]"

definition bareData :: jsval where
  "bareData = JObj [(''name'', JStr ''Torch'')]"

definition queuedState :: "int list \<Rightarrow> nat state" where
  "queuedState qs = demoState\<lparr>pendingQuantities := [''Item.abc'' \<mapsto> qs]\<rparr>"

text \<open>A host that resolves nothing, and the creation data after a quantity was applied.\<close>

definition noItemsHost :: "nat host" where
  "noItemsHost = demoHost\<lparr>fromUuid := (\<lambda>u w. (Inr None, w))\<rparr>"

definition createdWith :: "int \<Rightarrow> jsval" where
  "createdWith q = JObj [(''name'', JStr ''Torch''),
                    (''flags'', JObj [(''core'', JObj [(''sourceId'', JStr ''Item.abc'')])]),
                    (''system'', JObj [(''price'', JNum 1), (''quantity'', JNum q)])]"

lemmas demo_defs = demoHost_def demoState_def demoHeap_def demoRoll_def demoResolve_def demoDraw_def

declare processResult.simps [simp del]

section \<open>Facts about one processing step\<close>

text \<open>The options of a nested draw, and one turn of the loop over the nested draws.\<close>

definition drawOptions :: draw_options where
  "drawOptions = \<lparr>displayChat = Some False, recursive = Some True, rollMode = None\<rparr>"

definition drawOnce :: "'w host \<Rightarrow> string \<Rightarrow> nat \<Rightarrow> rid list \<Rightarrow> 'w state \<Rightarrow> (exn + rid list) \<times> 'w state" where
  "drawOnce h t depth subResults s =
     (case tableDraw h t drawOptions s of
        (Inl e, s4) \<Rightarrow> (Inl e, s4)
      | (Inr drawn, s4) \<Rightarrow>
          (case processResults h (results drawn) (depth + 1) s4 of
             (Inl e, s5) \<Rightarrow> (Inl e, s5)
           | (Inr processed, s5) \<Rightarrow> (Inr (subResults @ processed), s5)))"


lemma evaluateFormula_eq:
  "rollTotal h (trim f) (world s) = (v, w) \<Longrightarrow> evaluateFormula h f s = (v, s\<lparr>world := w\<rparr>)"
  by (simp add: evaluateFormula_def)

lemma resolveUuid_eq:
  "fromUuid h u (world s) = (v, w) \<Longrightarrow> resolveUuid h u s = (v, s\<lparr>world := w\<rparr>)"
  by (simp add: resolveUuid_def)

lemma processResult_nonpositive:
  "evaluateFormula h (formula p) s = (Inr q, s1) \<Longrightarrow> q \<le> 0
   \<Longrightarrow> processResult h r p depth s = (Inr [r], s1)"
  by (simp add: processResult.simps)

lemma processResult_unresolved:
  "evaluateFormula h (formula p) s = (Inr q, s1) \<Longrightarrow> 0 < q
   \<Longrightarrow> resolveUuid h (uuid p) s1 = (Inr None, s2)
   \<Longrightarrow> processResult h r p depth s =
       (Inr [r], warn (MODULE_ID @ '' | Could not resolve UUID: '' @ uuid p) s2)"
  by (simp add: processResult.simps)

lemma processResult_depth:
  "evaluateFormula h (formula p) s = (Inr q, s1) \<Longrightarrow> 0 < q
   \<Longrightarrow> resolveUuid h (uuid p) s1 = (Inr (Some (RollTable t)), s2)
   \<Longrightarrow> MAX_RECURSION_DEPTH \<le> depth
   \<Longrightarrow> processResult h r p depth s =
       (Inr [r], warn (MODULE_ID @ '' | Max recursion depth reached for table: '' @ pname p) s2)"
  by (simp add: processResult.simps)

lemma processResult_other:
  "evaluateFormula h (formula p) s = (Inr q, s1) \<Longrightarrow> 0 < q
   \<Longrightarrow> resolveUuid h (uuid p) s1 = (Inr (Some OtherDoc), s2)
   \<Longrightarrow> processResult h r p depth s =
       (Inr [r], warn (MODULE_ID @ '' | Unsupported document type for UUID: '' @ uuid p) s2)"
  by (simp add: processResult.simps)

lemma processResult_table:
  "evaluateFormula h (formula p) s = (Inr q, s1) \<Longrightarrow> 0 < q
   \<Longrightarrow> resolveUuid h (uuid p) s1 = (Inr (Some (RollTable t)), s2)
   \<Longrightarrow> depth < MAX_RECURSION_DEPTH
   \<Longrightarrow> processResult h r p depth s =
       (case forLoop (nat q) (drawOnce h t depth) [] s2 of
          (Inl e, s6) \<Rightarrow> (Inl e, s6)
        | (Inr subResults, s6) \<Rightarrow>
            (Inr subResults,
             s6\<lparr>resultQuantities := (resultQuantities s6)
                  (r \<mapsto> \<lparr>q_quantity = q, q_documentUuid = uuid p,
                         q_name = pname p, expandedToSubResults = Some True\<rparr>)\<rparr>))"
  unfolding drawOnce_def processResults_def drawOptions_def
  by (simp add: processResult.simps)



lemma processResult_item:
  "evaluateFormula h (formula p) s = (Inr q, s1) \<Longrightarrow> 0 < q
   \<Longrightarrow> resolveUuid h (uuid p) s1 = (Inr (Some (Item itemImg)), s2)
   \<Longrightarrow> processResult h r p depth s =
       (Inr [r],
        s2\<lparr>heap := (if rtype (heap s2 r) = ''text''
                    then (heap s2)(r := updateSource (heap s2 r)
                            \<lparr>rtype = ''document'', documentUuid = Some (uuid p),
                             name = pname p, description = Some [], img = itemImg\<rparr>)
                    else heap s2),
           resultQuantities := (resultQuantities s2)
             (r \<mapsto> \<lparr>q_quantity = q, q_documentUuid = uuid p,
                    q_name = pname p, expandedToSubResults = None\<rparr>),
           pendingQuantities := (pendingQuantities s2)
             (uuid p \<mapsto> (case pendingQuantities s2 (uuid p) of None \<Rightarrow> [] | Some old \<Rightarrow> old) @ [q])\<rparr>)"
  by (auto simp add: processResult.simps Let_def split: option.splits)

lemma processLoop_acc:
  "processLoop h rs depth acc s =
     (case processLoop h rs depth [] s of
        (Inl e, s') \<Rightarrow> (Inl e, s')
      | (Inr out, s') \<Rightarrow> (Inr (acc @ out), s'))"
proof (induction rs arbitrary: acc s)
  case Nil
  then show ?case by simp
next
  case (Cons r rs)
  show ?case
  proof (cases "parseQuantityResult (heap s r)")
    case None
    then show ?thesis
      using Cons.IH[of "acc @ [r]" s] Cons.IH[of "[r]" s]
      by (simp split: prod.splits sum.splits)
  next
    case (Some p)
    obtain v s' where pr: "processResult h r p depth s = (v, s')" by fastforce
    show ?thesis
    proof (cases v)
      case (Inl e)
      then show ?thesis using Some pr by simp
    next
      case (Inr ex)
      then show ?thesis
        using Some pr Cons.IH[of "acc @ ex" s'] Cons.IH[of "ex" s']
        by (simp split: prod.splits sum.splits)
    qed
  qed
qed

lemma processResults_Nil: "processResults h [] depth s = (Inr [], s)"
  by (simp add: processResults_def)

lemma processResults_Cons:
  "processResults h (r # rs) depth s =
     (case (case parseQuantityResult (heap s r) of
              Some p \<Rightarrow> processResult h r p depth s
            | None \<Rightarrow> (Inr [r], s)) of
        (Inl e, s') \<Rightarrow> (Inl e, s')
      | (Inr expanded, s') \<Rightarrow>
          (case processResults h rs depth s' of
             (Inl e, s'') \<Rightarrow> (Inl e, s'')
           | (Inr out, s'') \<Rightarrow> (Inr (expanded @ out), s'')))"
proof (cases "parseQuantityResult (heap s r)")
  case None
  then show ?thesis
    using processLoop_acc[of h rs depth "[r]" s]
    by (simp add: processResults_def)
next
  case (Some p)
  obtain v s' where pr: "processResult h r p depth s = (v, s')" by fastforce
  show ?thesis
  proof (cases v)
    case (Inl e)
    then show ?thesis using Some pr by (simp add: processResults_def)
  next
    case (Inr ex)
    then show ?thesis
      using Some pr processLoop_acc[of h rs depth ex s']
      by (simp add: processResults_def)
  qed
qed

lemma processResults_append:
  "processResults h (xs @ ys) depth s =
     (case processResults h xs depth s of
        (Inl e, s') \<Rightarrow> (Inl e, s')
      | (Inr out1, s') \<Rightarrow>
          (case processResults h ys depth s' of
             (Inl e, s'') \<Rightarrow> (Inl e, s'')
           | (Inr out2, s'') \<Rightarrow> (Inr (out1 @ out2), s'')))"
proof (induction xs arbitrary: s)
  case Nil
  show ?case by (simp add: processResults_Nil split: prod.splits sum.splits)
next
  case (Cons x xs)
  show ?case
    by (simp add: processResults_Cons Cons.IH split: prod.splits sum.splits option.splits)
qed


lemma pair_fstI: "fst x = a \<Longrightarrow> x = (a, snd x)"
  by (cases x) simp

lemma processResults_context:
  assumes "processResults h pre depth s0 = (Inr out1, s)"
    and "processResults h [r] depth s = (Inr mid, s')"
    and "processResults h post depth s' = (Inr out2, s3)"
  shows "processResults h (pre @ r # post) depth s0 = (Inr (out1 @ mid @ out2), s3)"
  using assms processResults_append[of h pre "[r] @ post" depth s0]
    processResults_append[of h "[r]" post depth s]
  by simp

lemma processResults_single:
  "parseQuantityResult (heap s r) = Some p \<Longrightarrow> processResult h r p depth s = (Inr out, s')
   \<Longrightarrow> processResults h [r] depth s = (Inr out, s')"
  by (simp add: processResults_Cons processResults_Nil)

lemma processResult_at_max_no_draw:
  "MAX_RECURSION_DEPTH \<le> depth
   \<Longrightarrow> processResult (h\<lparr>tableDraw := anyDraw\<rparr>) r p depth s = processResult h r p depth s"
  by (simp add: processResult.simps evaluateFormula_def resolveUuid_def
      split: prod.splits sum.splits option.splits doc.splits)

lemma processResults_at_max_no_draw:
  "MAX_RECURSION_DEPTH \<le> depth
   \<Longrightarrow> processResults (h\<lparr>tableDraw := anyDraw\<rparr>) rs depth s = processResults h rs depth s"
proof (induction rs arbitrary: s)
  case Nil
  show ?case by (simp add: processResults_Nil)
next
  case (Cons r rs)
  show ?case
    by (simp add: processResults_Cons processResult_at_max_no_draw[OF Cons.prems] Cons.IH[OF Cons.prems]
        split: option.splits prod.splits sum.splits)
qed

lemmas run_defs = processResults_Cons processResults_Nil processResult.simps parseQuantityResult_def
  matchHere.simps(3) tryLens.simps
  evaluateFormula_def resolveUuid_def ROLL_PATTERN_def TEXT_PATTERN_def lits_def isSpace_def trim_def
  updateSource_def warn_def MODULE_ID_def MAX_RECURSION_DEPTH_def

section \<open>Leaf targets\<close>

text \<open>
  C2. A result with a directive whose formula evaluates to \<open>q > 0\<close> and whose target
  resolves to an item: the result stays, the ledger gets exactly one record for it, with
  the quantity, the target, the display name and no expansion marker, and \<open>q\<close> is
  appended to the queue of the target, behind what was queued before.
\<close>

theorem leaf_quantity_record_and_queue:
  assumes "parseQuantityResult (heap s r) = Some p"
    and "rollTotal h (trim (formula p)) (world s) = (Inr q, w1)"
    and "0 < q"
    and "fromUuid h (uuid p) w1 = (Inr (Some (Item itemImg)), w2)"
  shows "fst (processResults h [r] depth s) = Inr [r]
    \<and> resultQuantities (snd (processResults h [r] depth s)) =
        (resultQuantities s)(r \<mapsto> \<lparr>q_quantity = q, q_documentUuid = uuid p, q_name = pname p,
                                    expandedToSubResults = None\<rparr>)
    \<and> (case getQuantity (snd (processResults h [r] depth s)) r of
          None \<Rightarrow> False
        | Some d \<Rightarrow> q_quantity d = q \<and> q_documentUuid d = uuid p \<and> q_name d = pname p
                    \<and> \<not> expandedToChildren d)
    \<and> pendingQuantities (snd (processResults h [r] depth s)) =
        (pendingQuantities s)(uuid p \<mapsto> pendingOf (pendingQuantities s) (uuid p) @ [q])"
proof -
  have e: "evaluateFormula h (formula p) s = (Inr q, s\<lparr>world := w1\<rparr>)"
    using assms(2) by (rule evaluateFormula_eq)
  have f: "resolveUuid h (uuid p) (s\<lparr>world := w1\<rparr>) = (Inr (Some (Item itemImg)), s\<lparr>world := w2\<rparr>)"
    using assms(4) by (simp add: resolveUuid_def)
  show ?thesis
    using assms(1)
    by (simp add: processResults_Cons processResults_Nil processResult_item[OF e assms(3) f]
        getQuantity_def expandedToChildren_def pendingOf_def)
qed


theorem leaf_quantity_record_and_queue_witness:
  "fst (processResults demoHost [0] 0 demoState) = Inr [0]
   \<and> getQuantity (snd (processResults demoHost [0] 0 demoState)) 0 =
       Some \<lparr>q_quantity = 2, q_documentUuid = ''Item.abc'', q_name = ''Torch'', expandedToSubResults = None\<rparr>
   \<and> pendingQuantities (snd (processResults demoHost [0] 0 demoState)) ''Item.abc'' = Some [2]"
proof -
  have p: "parseQuantityResult (heap demoState 0) =
      Some \<lparr>formula = ''1d4'', uuid = ''Item.abc'', pname = ''Torch''\<rparr>"
    by code_simp
  have e: "rollTotal demoHost (trim (formula \<lparr>formula = ''1d4'', uuid = ''Item.abc'', pname = ''Torch''\<rparr>))
             (world demoState) = (Inr 2, 1)"
    by code_simp
  have f: "fromUuid demoHost (uuid \<lparr>formula = ''1d4'', uuid = ''Item.abc'', pname = ''Torch''\<rparr>) 1
             = (Inr (Some (Item (Some ''torch.png''))), 1)"
    by code_simp
  show ?thesis
    using leaf_quantity_record_and_queue[OF p e _ f, of 0]
    by (simp add: getQuantity_def pendingOf_def demoState_def)
qed



text \<open>
  C6. A text result whose directive fires on an item with \<open>q > 0\<close> is changed through
  \<^verbatim>\<open>updateSource\<close> into a document result with the target and the display name of
  the directive and an empty description; no other object changes, and the result keeps
  its place between the results before and after it.
\<close>

theorem text_leaf_promoted_in_place:
  assumes "processResults h pre depth s0 = (Inr out1, s)"
    and "parseQuantityResult (heap s r) = Some p"
    and "rtype (heap s r) = ''text''"
    and "rollTotal h (trim (formula p)) (world s) = (Inr q, w1)"
    and "0 < q"
    and "fromUuid h (uuid p) w1 = (Inr (Some (Item itemImg)), w2)"
    and "processResults h post depth (snd (processResults h [r] depth s)) = (Inr out2, s3)"
  shows "heap (snd (processResults h [r] depth s)) =
           (heap s)(r := updateSource (heap s r)
              \<lparr>rtype = ''document'', documentUuid = Some (uuid p), name = pname p,
               description = Some [], img = itemImg\<rparr>)
    \<and> rtype (heap (snd (processResults h [r] depth s)) r) = ''document''
    \<and> documentUuid (heap (snd (processResults h [r] depth s)) r) = Some (uuid p)
    \<and> name (heap (snd (processResults h [r] depth s)) r) = pname p
    \<and> description (heap (snd (processResults h [r] depth s)) r) = Some []
    \<and> processResults h (pre @ r # post) depth s0 = (Inr (out1 @ [r] @ out2), s3)"
proof -
  have e: "evaluateFormula h (formula p) s = (Inr q, s\<lparr>world := w1\<rparr>)"
    using assms(4) by (rule evaluateFormula_eq)
  have f: "resolveUuid h (uuid p) (s\<lparr>world := w1\<rparr>) = (Inr (Some (Item itemImg)), s\<lparr>world := w2\<rparr>)"
    using assms(6) by (simp add: resolveUuid_def)
  note step = processResults_single[OF assms(2) processResult_item[OF e assms(5) f]]
  have one: "processResults h [r] depth s = (Inr [r], snd (processResults h [r] depth s))"
    by (rule pair_fstI) (simp add: step)
  have ctx: "processResults h (pre @ r # post) depth s0 = (Inr (out1 @ [r] @ out2), s3)"
    by (rule processResults_context[OF assms(1) one assms(7)])
  show ?thesis
    using ctx assms(3) by (simp add: step updateSource_def)
qed

theorem text_leaf_promoted_in_place_witness:
  "fst (processResults demoHost [7, 0, 2] 0 demoState) = Inr [7, 0, 2]
   \<and> heap (snd (processResults demoHost [0] 0 demoState)) 0 =
       \<lparr>rtype = ''document'', documentUuid = Some ''Item.abc'', name = ''Torch'',
        description = Some [], img = Some ''torch.png''\<rparr>"
proof -
  let ?p = "\<lparr>formula = ''1d4'', uuid = ''Item.abc'', pname = ''Torch''\<rparr>"
  have h1: "processResults demoHost [7] 0 demoState = (Inr [7], demoState)"
    by (simp add: run_defs demo_defs)
  have h2: "parseQuantityResult (heap demoState 0) = Some ?p"
    by code_simp
  have h3: "rtype (heap demoState 0) = ''text''"
    by (simp add: demo_defs)
  have h4: "rollTotal demoHost (trim (formula ?p)) (world demoState) = (Inr 2, 1)"
    by code_simp
  have h6: "fromUuid demoHost (uuid ?p) 1 = (Inr (Some (Item (Some ''torch.png''))), 1)"
    by code_simp
  have h7: "processResults demoHost [2] 0 (snd (processResults demoHost [0] 0 demoState)) =
      (Inr [2], snd (processResults demoHost [2] 0 (snd (processResults demoHost [0] 0 demoState))))"
    by (rule pair_fstI) (simp add: run_defs demo_defs)
  have old: "heap demoState 0 = \<lparr>rtype = ''text'', documentUuid = None, name = ''Row 1'',
                      description = Some ''[[/r 1d4]]@UUID[Item.abc]{Torch}'', img = None\<rparr>"
    by (simp add: demo_defs)
  show ?thesis
    using text_leaf_promoted_in_place[OF h1 h2 h3 h4 _ h6 h7]
    by (simp add: updateSource_def old)
qed

section \<open>Results that pass through\<close>

text \<open>
  C7. A result without a directive, and a result whose formula evaluates to a quantity of
  0 or less, is returned as it is, between the expansions of the results before and after
  it; the objects, the ledger, the queues and the console stay as they were (only the
  host's own state moves on with the dice roll).
\<close>

theorem no_directive_or_nonpositive_passes_through:
  assumes "processResults h pre depth s0 = (Inr out1, s)"
    and "(parseQuantityResult (heap s r) = None \<and> w1 = world s)
       \<or> (parseQuantityResult (heap s r) = Some p
          \<and> rollTotal h (trim (formula p)) (world s) = (Inr q, w1) \<and> q \<le> 0)"
    and "processResults h post depth (s\<lparr>world := w1\<rparr>) = (Inr out2, s3)"
  shows "processResults h [r] depth s = (Inr [r], s\<lparr>world := w1\<rparr>)
    \<and> heap (snd (processResults h [r] depth s)) = heap s
    \<and> resultQuantities (snd (processResults h [r] depth s)) = resultQuantities s
    \<and> pendingQuantities (snd (processResults h [r] depth s)) = pendingQuantities s
    \<and> console (snd (processResults h [r] depth s)) = console s
    \<and> processResults h (pre @ r # post) depth s0 = (Inr (out1 @ [r] @ out2), s3)"
proof -
  have one: "processResults h [r] depth s = (Inr [r], s\<lparr>world := w1\<rparr>)"
    using assms(2)
  proof
    assume "parseQuantityResult (heap s r) = None \<and> w1 = world s"
    then show ?thesis by (simp add: processResults_Cons processResults_Nil)
  next
    assume a: "parseQuantityResult (heap s r) = Some p
          \<and> rollTotal h (trim (formula p)) (world s) = (Inr q, w1) \<and> q \<le> 0"
    then have e: "evaluateFormula h (formula p) s = (Inr q, s\<lparr>world := w1\<rparr>)"
      by (simp add: evaluateFormula_eq)
    from a have p: "parseQuantityResult (heap s r) = Some p" and n: "q \<le> 0"
      by simp_all
    show ?thesis
      by (rule processResults_single[OF p processResult_nonpositive[OF e n]])
  qed
  have ctx: "processResults h (pre @ r # post) depth s0 = (Inr (out1 @ [r] @ out2), s3)"
    by (rule processResults_context[OF assms(1) one assms(3)])
  show ?thesis using one ctx by simp
qed

theorem no_directive_or_nonpositive_passes_through_witness:
  "fst (processResults demoHost [0, 7, 2] 0 demoState) = Inr [0, 7, 2]
   \<and> fst (processResults demoHost [0, 4, 2] 0 demoState) = Inr [0, 4, 2]
   \<and> resultQuantities (snd (processResults demoHost [4] 0 demoState)) 4 = None
   \<and> pendingQuantities (snd (processResults demoHost [4] 0 demoState)) ''RollTable.xyz'' = None"
proof -
  let ?s = "snd (processResults demoHost [0] 0 demoState)"
  let ?p = "\<lparr>formula = ''0'', uuid = ''RollTable.xyz'', pname = ''Gems''\<rparr>"
  have pre: "processResults demoHost [0] 0 demoState = (Inr [0], ?s)"
    by (rule pair_fstI) (simp add: run_defs demo_defs)
  have w: "world ?s = 1" and hp: "heap ?s 7 = demoHeap 7" "heap ?s 4 = demoHeap 4"
    by (simp_all add: run_defs demo_defs)
  have a: "(parseQuantityResult (heap ?s 7) = None \<and> 1 = world ?s)
       \<or> (parseQuantityResult (heap ?s 7) = Some ?p
          \<and> rollTotal demoHost (trim (formula ?p)) (world ?s) = (Inr 0, 1) \<and> (0::int) \<le> 0)"
    unfolding w hp by code_simp
  have b: "(parseQuantityResult (heap ?s 4) = None \<and> 2 = world ?s)
       \<or> (parseQuantityResult (heap ?s 4) = Some ?p
          \<and> rollTotal demoHost (trim (formula ?p)) (world ?s) = (Inr 0, 2) \<and> (0::int) \<le> 0)"
    unfolding w hp by code_simp
  have posta: "processResults demoHost [2] 0 (?s\<lparr>world := 1\<rparr>) =
      (Inr [2], snd (processResults demoHost [2] 0 (?s\<lparr>world := 1\<rparr>)))"
    by (rule pair_fstI) (simp add: run_defs demo_defs)
  have postb: "processResults demoHost [2] 0 (?s\<lparr>world := 2\<rparr>) =
      (Inr [2], snd (processResults demoHost [2] 0 (?s\<lparr>world := 2\<rparr>)))"
    by (rule pair_fstI) (simp add: run_defs demo_defs)
  have c: "(parseQuantityResult (heap demoState 4) = None \<and> 1 = world demoState)
       \<or> (parseQuantityResult (heap demoState 4) = Some ?p
          \<and> rollTotal demoHost (trim (formula ?p)) (world demoState) = (Inr 0, 1) \<and> (0::int) \<le> 0)"
    by code_simp
  have nil: "processResults demoHost [] 0 demoState = (Inr [], demoState)"
    "processResults demoHost [] 0 (demoState\<lparr>world := 1\<rparr>) = (Inr [], demoState\<lparr>world := 1\<rparr>)"
    by (simp_all add: processResults_Nil)
  show ?thesis
    using no_directive_or_nonpositive_passes_through[OF pre a posta]
      no_directive_or_nonpositive_passes_through[OF pre b postb]
      no_directive_or_nonpositive_passes_through[OF nil(1) c nil(2)]
    by (simp add: demoState_def)
qed

text \<open>
  C9. When a directive with \<open>q > 0\<close> does not fire (its target does not resolve, or is
  neither an item nor a table, or is a table at a depth that has reached the maximum), the
  result is returned, one warning is logged, and the objects, the ledger and the queues are
  untouched; so a lookup of the result gives what it gave before.
\<close>

theorem non_firing_branches_leave_ledger:
  assumes "parseQuantityResult (heap s r) = Some p"
    and "rollTotal h (trim (formula p)) (world s) = (Inr q, w1)"
    and "0 < q"
    and "fromUuid h (uuid p) w1 = (Inr None, w2)
       \<or> fromUuid h (uuid p) w1 = (Inr (Some OtherDoc), w2)
       \<or> (fromUuid h (uuid p) w1 = (Inr (Some (RollTable t)), w2) \<and> MAX_RECURSION_DEPTH \<le> depth)"
  shows "fst (processResults h [r] depth s) = Inr [r]
    \<and> heap (snd (processResults h [r] depth s)) = heap s
    \<and> resultQuantities (snd (processResults h [r] depth s)) = resultQuantities s
    \<and> pendingQuantities (snd (processResults h [r] depth s)) = pendingQuantities s
    \<and> getQuantity (snd (processResults h [r] depth s)) r = getQuantity s r
    \<and> (\<exists>msg. console (snd (processResults h [r] depth s)) = console s @ [Warn msg])
    \<and> world (snd (processResults h [r] depth s)) = w2"
proof -
  have e: "evaluateFormula h (formula p) s = (Inr q, s\<lparr>world := w1\<rparr>)"
    using assms(2) by (rule evaluateFormula_eq)
  have "\<exists>msg. processResults h [r] depth s = (Inr [r], warn msg (s\<lparr>world := w2\<rparr>))"
    using assms(4)
  proof (elim disjE conjE)
    assume "fromUuid h (uuid p) w1 = (Inr None, w2)"
    then have f: "resolveUuid h (uuid p) (s\<lparr>world := w1\<rparr>) = (Inr None, s\<lparr>world := w2\<rparr>)"
      by (simp add: resolveUuid_def)
    show ?thesis
      using processResults_single[OF assms(1) processResult_unresolved[OF e assms(3) f]]
      by blast
  next
    assume "fromUuid h (uuid p) w1 = (Inr (Some OtherDoc), w2)"
    then have f: "resolveUuid h (uuid p) (s\<lparr>world := w1\<rparr>) = (Inr (Some OtherDoc), s\<lparr>world := w2\<rparr>)"
      by (simp add: resolveUuid_def)
    show ?thesis
      using processResults_single[OF assms(1) processResult_other[OF e assms(3) f]]
      by blast
  next
    assume "fromUuid h (uuid p) w1 = (Inr (Some (RollTable t)), w2)" and d: "MAX_RECURSION_DEPTH \<le> depth"
    then have f: "resolveUuid h (uuid p) (s\<lparr>world := w1\<rparr>) = (Inr (Some (RollTable t)), s\<lparr>world := w2\<rparr>)"
      by (simp add: resolveUuid_def)
    show ?thesis
      using processResults_single[OF assms(1) processResult_depth[OF e assms(3) f d]]
      by blast
  qed
  then obtain msg where "processResults h [r] depth s = (Inr [r], warn msg (s\<lparr>world := w2\<rparr>))"
    by blast
  then show ?thesis by (simp add: warn_def getQuantity_def)
qed

theorem non_firing_branches_leave_ledger_witness:
  "fst (processResults demoHost [5] 0 demoState) = Inr [5]
   \<and> getQuantity (snd (processResults demoHost [5] 0 demoState)) 5 = None
   \<and> pendingQuantities (snd (processResults demoHost [5] 0 demoState)) = Map.empty
   \<and> fst (processResults demoHost [6] 0 demoState) = Inr [6]
   \<and> getQuantity (snd (processResults demoHost [6] 0 demoState)) 6 = None
   \<and> fst (processResults demoHost [1] 10 demoState) = Inr [1]
   \<and> getQuantity (snd (processResults demoHost [1] 10 demoState)) 1 = None
   \<and> pendingQuantities (snd (processResults demoHost [1] 10 demoState)) = Map.empty"
proof -
  let ?p5 = "\<lparr>formula = ''1'', uuid = ''Item.gone'', pname = ''Lost''\<rparr>"
  let ?p6 = "\<lparr>formula = ''3'', uuid = ''Actor.bob'', pname = ''Bob''\<rparr>"
  let ?p1 = "\<lparr>formula = ''2'', uuid = ''RollTable.xyz'', pname = ''Gems''\<rparr>"
  have p5: "parseQuantityResult (heap demoState 5) = Some ?p5"
    and p6: "parseQuantityResult (heap demoState 6) = Some ?p6"
    and p1: "parseQuantityResult (heap demoState 1) = Some ?p1"
    by code_simp+
  have r5: "rollTotal demoHost (trim (formula ?p5)) (world demoState) = (Inr 1, 1)"
    and r6: "rollTotal demoHost (trim (formula ?p6)) (world demoState) = (Inr 3, 1)"
    and r1: "rollTotal demoHost (trim (formula ?p1)) (world demoState) = (Inr 2, 1)"
    by code_simp+
  have f5: "fromUuid demoHost (uuid ?p5) 1 = (Inr None, 1)
       \<or> fromUuid demoHost (uuid ?p5) 1 = (Inr (Some OtherDoc), 1)
       \<or> (fromUuid demoHost (uuid ?p5) 1 = (Inr (Some (RollTable ''xyz'')), 1) \<and> MAX_RECURSION_DEPTH \<le> 0)"
    by code_simp
  have f6: "fromUuid demoHost (uuid ?p6) 1 = (Inr None, 1)
       \<or> fromUuid demoHost (uuid ?p6) 1 = (Inr (Some OtherDoc), 1)
       \<or> (fromUuid demoHost (uuid ?p6) 1 = (Inr (Some (RollTable ''xyz'')), 1) \<and> MAX_RECURSION_DEPTH \<le> 0)"
    by code_simp
  have f1: "fromUuid demoHost (uuid ?p1) 1 = (Inr None, 1)
       \<or> fromUuid demoHost (uuid ?p1) 1 = (Inr (Some OtherDoc), 1)
       \<or> (fromUuid demoHost (uuid ?p1) 1 = (Inr (Some (RollTable ''xyz'')), 1) \<and> MAX_RECURSION_DEPTH \<le> 10)"
    by code_simp
  show ?thesis
    using non_firing_branches_leave_ledger[OF p5 r5 _ f5]
      non_firing_branches_leave_ledger[OF p6 r6 _ f6]
      non_firing_branches_leave_ledger[OF p1 r1 _ f1]
    by (simp add: demoState_def getQuantity_def)
qed

section \<open>Table targets\<close>




section \<open>The depth bound\<close>

text \<open>
  The bound is 10. At a depth that has reached it, a result whose formula evaluates to
  \<open>q > 0\<close> and whose target resolves to a table is returned as it is, with one warning
  that names the table and no other change; and an expansion at such a depth does not
  depend on the draw operation of the host at all, since it never draws. The processing
  functions are total: their termination is proved with the distance of the depth to the
  bound as the measure, for every host whose draws return. Whether the draws of the host
  return is another matter, taken up in the last section: the draw that the module calls
  on a nested table is the module's own wrapper.
\<close>

lemma depth_bound_passes_through:
  assumes "MAX_RECURSION_DEPTH \<le> depth"
  shows "MAX_RECURSION_DEPTH = 10
    \<and> (parseQuantityResult (heap s r) = Some p
        \<and> rollTotal h (trim (formula p)) (world s) = (Inr q, w1) \<and> 0 < q
        \<and> fromUuid h (uuid p) w1 = (Inr (Some (RollTable t)), w2)
       \<longrightarrow> processResults h [r] depth s =
            (Inr [r],
             s\<lparr>world := w2,
               console := console s @
                 [Warn (MODULE_ID @ '' | Max recursion depth reached for table: '' @ pname p)]\<rparr>))
    \<and> processResults (h\<lparr>tableDraw := anyDraw\<rparr>) rs depth s = processResults h rs depth s"
proof (intro conjI impI)
  show "MAX_RECURSION_DEPTH = 10" by (simp add: MAX_RECURSION_DEPTH_def)
next
  assume a: "parseQuantityResult (heap s r) = Some p
        \<and> rollTotal h (trim (formula p)) (world s) = (Inr q, w1) \<and> 0 < q
        \<and> fromUuid h (uuid p) w1 = (Inr (Some (RollTable t)), w2)"
  then have e: "evaluateFormula h (formula p) s = (Inr q, s\<lparr>world := w1\<rparr>)"
    by (simp add: evaluateFormula_eq)
  from a have f: "resolveUuid h (uuid p) (s\<lparr>world := w1\<rparr>) = (Inr (Some (RollTable t)), s\<lparr>world := w2\<rparr>)"
    by (simp add: resolveUuid_def)
  from a have p: "parseQuantityResult (heap s r) = Some p" and q: "0 < q" by simp_all
  show "processResults h [r] depth s =
            (Inr [r],
             s\<lparr>world := w2,
               console := console s @
                 [Warn (MODULE_ID @ '' | Max recursion depth reached for table: '' @ pname p)]\<rparr>)"
    using processResults_single[OF p processResult_depth[OF e q f assms]]
    by (simp add: warn_def)
next
  show "processResults (h\<lparr>tableDraw := anyDraw\<rparr>) rs depth s = processResults h rs depth s"
    by (rule processResults_at_max_no_draw[OF assms])
qed

lemma depth_bound_passes_through_at_loop_row:
  "processResults demoHost [3] 10 demoState =
     (Inr [3], demoState\<lparr>world := 1,
        console := [Warn ''table-quantities | Max recursion depth reached for table: Loop'']\<rparr>)
   \<and> fst (processResults demoHost [3] 0 demoState) = Inr [3]
   \<and> console (snd (processResults demoHost [3] 0 demoState)) =
       [Warn ''table-quantities | Max recursion depth reached for table: Loop'']
   \<and> world (snd (processResults demoHost [3] 0 demoState)) = 11"
proof -
  let ?p = "\<lparr>formula = ''1'', uuid = ''RollTable.loop'', pname = ''Loop''\<rparr>"
  have d: "MAX_RECURSION_DEPTH \<le> 10" by (simp add: MAX_RECURSION_DEPTH_def)
  have a: "parseQuantityResult (heap demoState 3) = Some ?p
        \<and> rollTotal demoHost (trim (formula ?p)) (world demoState) = (Inr 1, 1) \<and> (0::int) < 1
        \<and> fromUuid demoHost (uuid ?p) 1 = (Inr (Some (RollTable ''loop'')), 1)"
    by code_simp
  have run: "fst (processResults demoHost [3] 0 demoState) = Inr [3]"
    "console (snd (processResults demoHost [3] 0 demoState)) =
       [Warn ''table-quantities | Max recursion depth reached for table: Loop'']"
    "world (snd (processResults demoHost [3] 0 demoState)) = 11"
    by code_simp+
  have "processResults demoHost [3] 10 demoState =
      (Inr [3],
       demoState\<lparr>world := 1,
         console := console demoState @
           [Warn (MODULE_ID @ '' | Max recursion depth reached for table: '' @ pname ?p)]\<rparr>)"
    using depth_bound_passes_through[OF d, of demoState 3 ?p demoHost 1 1 "''loop''" 1] a
    by blast
  then show ?thesis
    using run by (simp add: demoState_def MODULE_ID_def)
qed

section \<open>The parser\<close>

lemma takeWhile_run:
  "\<forall>x\<in>set xs. P x \<Longrightarrow> rest = [] \<or> \<not> P (hd rest) \<Longrightarrow> takeWhile P (xs @ rest) = xs"
proof (induction xs)
  case Nil
  then show ?case by (cases rest) simp_all
next
  case (Cons a xs)
  then show ?case by simp
qed

lemma matchHere_Rep_run:
  assumes "\<forall>x\<in>set xs. inCls k x"
    and "rest = [] \<or> \<not> inCls k (hd rest)"
    and "m \<le> length xs"
    and "matchHere p rest (if cap then caps @ [xs] else caps) = Some res"
  shows "matchHere (Rep k m cap # p) (xs @ rest) caps = Some res"
proof -
  have t: "takeWhile (inCls k) (xs @ rest) = xs"
    using assms(1,2) by (rule takeWhile_run)
  have "matchHere (Rep k m cap # p) (xs @ rest) caps = tryLens p (xs @ rest) caps m cap (length xs)"
    by (simp add: t matchHere.simps(3))
  also have "\<dots> = Some res"
    using assms(3,4) by (subst tryLens.simps) (cases cap, simp_all)
  finally show ?thesis .
qed

lemma match_roll:
  assumes "wellFormedDirective ws f ws' u n"
  shows "matchHere ROLL_PATTERN (selfContained ws f ws' u n) [] =
           Some ([f], ws' @ ''@UUID['' @ u @ '']{'' @ n @ ''}'')"
proof -
  let ?rest = "ws' @ ''@UUID['' @ u @ '']{'' @ n @ ''}''"
  have a: "matchHere (lits '']]'') ('']]'' @ ?rest) [f] = Some ([f], ?rest)"
    by (simp add: lits_def)
  have b: "matchHere (Rep (NotChr CHR '']'') 1 True # lits '']]'') (f @ '']]'' @ ?rest) [] = Some ([f], ?rest)"
    by (rule matchHere_Rep_run) (insert assms a, auto simp: wellFormedDirective_def lits_def Suc_le_eq list_all_iff hd_append)
  have c: "matchHere (Rep Space 1 False # Rep (NotChr CHR '']'') 1 True # lits '']]'')
             (ws @ f @ '']]'' @ ?rest) [] = Some ([f], ?rest)"
    by (rule matchHere_Rep_run) (insert assms b, auto simp: wellFormedDirective_def lits_def Suc_le_eq list_all_iff hd_append)
  show ?thesis
    using c by (simp add: ROLL_PATTERN_def selfContained_def lits_def)
qed

lemma match_text:
  assumes "wellFormedDirective ws f ws' u n"
  shows "matchHere TEXT_PATTERN (selfContained ws f ws' u n) [] = Some ([f, u, n], [])"
proof -
  let ?p5 = "Rep (NotChr CHR ''}'') 0 True # lits ''}''"
  let ?p4 = "Rep (NotChr CHR '']'') 1 True # lits '']{'' @ ?p5"
  let ?p3 = "Rep Space 0 False # lits ''@UUID['' @ ?p4"
  let ?p2 = "Rep (NotChr CHR '']'') 1 True # lits '']]'' @ ?p3"
  let ?p1 = "Rep Space 1 False # ?p2"
  have e: "matchHere ?p5 (n @ ''}'') [f, u] = Some ([f, u, n], [])"
    by (rule matchHere_Rep_run) (insert assms, auto simp: wellFormedDirective_def lits_def Suc_le_eq list_all_iff hd_append)
  have d: "matchHere ?p4 (u @ '']{'' @ n @ ''}'') [f] = Some ([f, u, n], [])"
    by (rule matchHere_Rep_run) (insert assms e, auto simp: wellFormedDirective_def lits_def Suc_le_eq list_all_iff hd_append)
  have c: "matchHere ?p3 (ws' @ ''@UUID['' @ u @ '']{'' @ n @ ''}'') [f] = Some ([f, u, n], [])"
    by (rule matchHere_Rep_run) (insert assms d, auto simp: wellFormedDirective_def lits_def list_all_iff isSpace_def)
  have b: "matchHere ?p2 (f @ '']]'' @ ws' @ ''@UUID['' @ u @ '']{'' @ n @ ''}'') [] = Some ([f, u, n], [])"
    by (rule matchHere_Rep_run) (insert assms c, auto simp: wellFormedDirective_def lits_def Suc_le_eq list_all_iff hd_append)
  have a: "matchHere ?p1 (ws @ f @ '']]'' @ ws' @ ''@UUID['' @ u @ '']{'' @ n @ ''}'') [] = Some ([f, u, n], [])"
    by (rule matchHere_Rep_run) (insert assms b, auto simp: wellFormedDirective_def lits_def Suc_le_eq list_all_iff hd_append)
  show ?thesis
    using a by (simp add: TEXT_PATTERN_def selfContained_def lits_def)
qed

lemma regexMatch_first:
  "matchHere p s [] = Some (caps, rest) \<Longrightarrow> regexMatch p s = Some caps"
  by (cases s) simp_all

text \<open>
  C5. For a description that is exactly the self-contained form, with a formula that is
  not empty, does not begin with white space and has no \<^verbatim>\<open>]\<close>, a reference that is
  not empty and has no \<^verbatim>\<open>]\<close> and a name without \<^verbatim>\<open>}\<close>, the parser depends on the
  discriminant. A text result gives the formula, the reference and the name of the text.
  A document result with a reference of its own gives the formula of the text with the
  reference and the name of the result. Any other result that is not a text result gives
  no directive.
\<close>

theorem self_contained_directive_by_discriminant:
  assumes "wellFormedDirective ws f ws' u n"
    and "description r = Some (selfContained ws f ws' u n)"
  shows "(rtype r = ''text'' \<longrightarrow> parseQuantityResult r = Some \<lparr>formula = f, uuid = u, pname = n\<rparr>)
    \<and> (rtype r = ''document'' \<and> documentUuid r = Some t \<and> t \<noteq> []
        \<longrightarrow> parseQuantityResult r = Some \<lparr>formula = f, uuid = t, pname = name r\<rparr>)
    \<and> (rtype r \<noteq> ''text'' \<and> (documentUuid r = None \<or> documentUuid r = Some [])
        \<longrightarrow> parseQuantityResult r = None)
    \<and> (rtype r \<noteq> ''text'' \<and> rtype r \<noteq> ''document'' \<longrightarrow> parseQuantityResult r = None)"
proof -
  have roll: "regexMatch ROLL_PATTERN (selfContained ws f ws' u n) = Some [f]"
    by (rule regexMatch_first[OF match_roll[OF assms(1)]])
  have full: "regexMatch TEXT_PATTERN (selfContained ws f ws' u n) = Some [f, u, n]"
    by (rule regexMatch_first[OF match_text[OF assms(1)]])
  show ?thesis
    by (auto simp: parseQuantityResult_def Let_def assms(2) roll full split: option.splits)
qed

theorem self_contained_directive_by_discriminant_witness:
  "parseQuantityResult \<lparr>rtype = ''text'', documentUuid = None, name = ''Row 1'',
       description = Some ''[[/r 1d4]]@UUID[Item.abc]{Torch}'', img = None\<rparr>
     = Some \<lparr>formula = ''1d4'', uuid = ''Item.abc'', pname = ''Torch''\<rparr>
   \<and> parseQuantityResult \<lparr>rtype = ''document'', documentUuid = Some ''Item.zzz'', name = ''Lantern'',
       description = Some ''[[/r 1d4]]@UUID[Item.abc]{Torch}'', img = None\<rparr>
     = Some \<lparr>formula = ''1d4'', uuid = ''Item.zzz'', pname = ''Lantern''\<rparr>"
proof -
  have w: "wellFormedDirective '' '' ''1d4'' [] ''Item.abc'' ''Torch''"
    by (simp add: wellFormedDirective_def isSpace_def)
  have d: "''[[/r 1d4]]@UUID[Item.abc]{Torch}'' = selfContained '' '' ''1d4'' [] ''Item.abc'' ''Torch''"
    by (simp add: selfContained_def)
  show ?thesis
    using self_contained_directive_by_discriminant[OF w, of
        "\<lparr>rtype = ''text'', documentUuid = None, name = ''Row 1'',
          description = Some ''[[/r 1d4]]@UUID[Item.abc]{Torch}'', img = None\<rparr>"]
      self_contained_directive_by_discriminant[OF w, of
        "\<lparr>rtype = ''document'', documentUuid = Some ''Item.zzz'', name = ''Lantern'',
          description = Some ''[[/r 1d4]]@UUID[Item.abc]{Torch}'', img = None\<rparr>" "''Item.zzz''"]
    by (simp add: d)
qed

text \<open>
  C5 as stated has the reference and the name taken from the text for every
  discriminant and every description of the form. A document result linked to
  \<^verbatim>\<open>Item.zzz\<close> whose description names \<^verbatim>\<open>Item.abc\<close> is parsed to \<^verbatim>\<open>Item.zzz\<close>, and a
  document result without a reference has no directive. A formula with a flavour in
  brackets, \<^verbatim>\<open>1d4[fire]\<close>, gives no directive on a text result and the formula
  \<^verbatim>\<open>1d4[fire\<close> on a document result; a name with braces, \<^verbatim>\<open>Torch {lit}\<close>, is cut at
  its first closing brace.
\<close>

theorem linked_result_ignores_reference_in_text:
  "description \<lparr>rtype = ''document'', documentUuid = Some ''Item.zzz'', name = ''Lantern'',
       description = Some ''[[/r 1d4]]@UUID[Item.abc]{Torch}'', img = None\<rparr>
     = Some (selfContained '' '' ''1d4'' [] ''Item.abc'' ''Torch'')
   \<and> parseQuantityResult \<lparr>rtype = ''document'', documentUuid = Some ''Item.zzz'', name = ''Lantern'',
       description = Some ''[[/r 1d4]]@UUID[Item.abc]{Torch}'', img = None\<rparr>
     = Some \<lparr>formula = ''1d4'', uuid = ''Item.zzz'', pname = ''Lantern''\<rparr>
   \<and> parseQuantityResult \<lparr>rtype = ''document'', documentUuid = None, name = ''Lantern'',
       description = Some ''[[/r 1d4]]@UUID[Item.abc]{Torch}'', img = None\<rparr> = None
   \<and> selfContained '' '' ''1d4[fire]'' [] ''Item.abc'' ''Torch'' = ''[[/r 1d4[fire]]]@UUID[Item.abc]{Torch}''
   \<and> parseQuantityResult \<lparr>rtype = ''text'', documentUuid = None, name = ''Row 1'',
       description = Some ''[[/r 1d4[fire]]]@UUID[Item.abc]{Torch}'', img = None\<rparr> = None
   \<and> parseQuantityResult \<lparr>rtype = ''document'', documentUuid = Some ''Item.abc'', name = ''Torch'',
       description = Some ''[[/r 1d4[fire]]]@UUID[Item.abc]{Torch}'', img = None\<rparr>
     = Some \<lparr>formula = ''1d4[fire'', uuid = ''Item.abc'', pname = ''Torch''\<rparr>
   \<and> selfContained '' '' ''1d4'' [] ''Item.abc'' ''Torch {lit}'' = ''[[/r 1d4]]@UUID[Item.abc]{Torch {lit}}''
   \<and> parseQuantityResult \<lparr>rtype = ''text'', documentUuid = None, name = ''Row 1'',
       description = Some ''[[/r 1d4]]@UUID[Item.abc]{Torch {lit}}'', img = None\<rparr>
     = Some \<lparr>formula = ''1d4'', uuid = ''Item.abc'', pname = ''Torch {lit''\<rparr>"
  by code_simp

section \<open>The draw wrapper contains errors\<close>

text \<open>
  C8. When the underlying draw throws, the error is logged and the draw is called once
  more with the same options; what this second call gives, result or error, is what the
  caller gets. When the underlying draw has returned and a later step throws, the error is
  logged and the caller gets the draw result: with the list of results as drawn when the
  expansion threw, and with the expanded list when the chat message or the observers
  threw. So once the underlying draw has returned the wrapper returns a draw result, with
  the roll of the draw and either the drawn or the expanded results.
\<close>

theorem draw_wrapper_contains_errors:
  "(wrapped options s = (Inl e, s1)
      \<longrightarrow> wrappedDraw h wrapped tableName options s = wrapped options (errorLogged e s1))
   \<and> (wrapped options s = (Inr d, s1) \<and> processResults h (results d) 0 s1 = (Inl e, s2)
      \<longrightarrow> wrappedDraw h wrapped tableName options s = (Inr d, errorLogged e s2))
   \<and> (wrapped options s = (Inr d, s1) \<and> processResults h (results d) 0 s1 = (Inr rs, s2)
       \<and> (if displayChat options \<noteq> Some False \<and> settingModifyChat h (world s2)
           then sendQuantityChat h tableName rs (roll d) (rollMode options) s2
           else (Inr (), s2)) = (Inl e, s3)
      \<longrightarrow> wrappedDraw h wrapped tableName options s = (Inr (d\<lparr>results := rs\<rparr>), errorLogged e s3))
   \<and> (wrapped options s = (Inr d, s1) \<and> processResults h (results d) 0 s1 = (Inr rs, s2)
       \<and> (if displayChat options \<noteq> Some False \<and> settingModifyChat h (world s2)
           then sendQuantityChat h tableName rs (roll d) (rollMode options) s2
           else (Inr (), s2)) = (Inr (), s3)
       \<and> hooksCallAll h rs s3 = (Inl e, s4)
      \<longrightarrow> wrappedDraw h wrapped tableName options s = (Inr (d\<lparr>results := rs\<rparr>), errorLogged e s4))
   \<and> (wrapped options s = (Inr d, s1)
      \<longrightarrow> (\<exists>d' s'. wrappedDraw h wrapped tableName options s = (Inr d', s')
             \<and> roll d' = roll d
             \<and> (results d' = results d
                \<or> fst (processResults h (results d) 0 s1) = Inr (results d'))))"
proof (intro conjI impI)
  assume "wrapped options s = (Inl e, s1)"
  then show "wrappedDraw h wrapped tableName options s = wrapped options (errorLogged e s1)"
    by (simp add: wrappedDraw_def catchDraw_def errorLogged_def)
next
  assume "wrapped options s = (Inr d, s1) \<and> processResults h (results d) 0 s1 = (Inl e, s2)"
  then show "wrappedDraw h wrapped tableName options s = (Inr d, errorLogged e s2)"
    by (simp add: wrappedDraw_def catchDraw_def errorLogged_def)
next
  assume "wrapped options s = (Inr d, s1) \<and> processResults h (results d) 0 s1 = (Inr rs, s2)
       \<and> (if displayChat options \<noteq> Some False \<and> settingModifyChat h (world s2)
           then sendQuantityChat h tableName rs (roll d) (rollMode options) s2
           else (Inr (), s2)) = (Inl e, s3)"
  then show "wrappedDraw h wrapped tableName options s = (Inr (d\<lparr>results := rs\<rparr>), errorLogged e s3)"
    by (auto simp: wrappedDraw_def catchDraw_def errorLogged_def Let_def split: if_splits)
next
  assume "wrapped options s = (Inr d, s1) \<and> processResults h (results d) 0 s1 = (Inr rs, s2)
       \<and> (if displayChat options \<noteq> Some False \<and> settingModifyChat h (world s2)
           then sendQuantityChat h tableName rs (roll d) (rollMode options) s2
           else (Inr (), s2)) = (Inr (), s3)
       \<and> hooksCallAll h rs s3 = (Inl e, s4)"
  then show "wrappedDraw h wrapped tableName options s = (Inr (d\<lparr>results := rs\<rparr>), errorLogged e s4)"
    by (auto simp: wrappedDraw_def catchDraw_def errorLogged_def Let_def split: if_splits)
next
  assume "wrapped options s = (Inr d, s1)"
  then show "\<exists>d' s'. wrappedDraw h wrapped tableName options s = (Inr d', s')
             \<and> roll d' = roll d
             \<and> (results d' = results d
                \<or> fst (processResults h (results d) 0 s1) = Inr (results d'))"
    by (auto simp: wrappedDraw_def catchDraw_def Let_def split: prod.splits sum.splits)
qed

lemmas wrap_defs = wrappedDraw_def catchDraw_def sendQuantityChat_def List.map_filter_def noOptions_def
  demoOriginalDraw_def chatFailsHost_def numeral_2_eq_2 drawOptions_def Let_def

theorem draw_wrapper_contains_errors_witness:
  "fst (wrappedDraw demoHost (demoOriginalDraw [0, 8]) ''Loot'' noOptions demoState) =
     Inr \<lparr>results = [0, 8], roll = 7\<rparr>
   \<and> fst (wrappedDraw chatFailsHost (demoOriginalDraw [1]) ''Loot'' noOptions demoState) =
     Inr \<lparr>results = [2, 2], roll = 7\<rparr>"
proof -
  let ?d = "\<lparr>results = [0, 8], roll = 7\<rparr>"
  let ?s2 = "snd (processResults demoHost [0, 8] 0 demoState)"
  have a: "demoOriginalDraw [0, 8] noOptions demoState = (Inr ?d, demoState)
       \<and> processResults demoHost (results ?d) 0 demoState = (Inl (Thrown ''formula''), ?s2)"
    by (rule conjI, simp add: demoOriginalDraw_def, simp, rule pair_fstI)
      (simp add: run_defs demo_defs)
  let ?e = "\<lparr>results = [1], roll = 7\<rparr>"
  let ?t2 = "snd (processResults chatFailsHost [1] 0 demoState)"
  have run: "fst (processResults chatFailsHost [1] 0 demoState) = Inr [2, 2]"
    by (simp add: wrap_defs run_defs demo_defs)
  have chat: "fst (if displayChat noOptions \<noteq> Some False \<and> settingModifyChat chatFailsHost (world ?t2)
           then sendQuantityChat chatFailsHost ''Loot'' [2, 2] (roll ?e) (rollMode noOptions) ?t2
           else (Inr (), ?t2)) = Inl (Thrown ''chat'')"
    by (simp add: wrap_defs run_defs demo_defs)
  have b: "demoOriginalDraw [1] noOptions demoState = (Inr ?e, demoState)
       \<and> processResults chatFailsHost (results ?e) 0 demoState = (Inr [2, 2], ?t2)
       \<and> (if displayChat noOptions \<noteq> Some False \<and> settingModifyChat chatFailsHost (world ?t2)
           then sendQuantityChat chatFailsHost ''Loot'' [2, 2] (roll ?e) (rollMode noOptions) ?t2
           else (Inr (), ?t2)) =
          (Inl (Thrown ''chat''),
           snd (if displayChat noOptions \<noteq> Some False \<and> settingModifyChat chatFailsHost (world ?t2)
           then sendQuantityChat chatFailsHost ''Loot'' [2, 2] (roll ?e) (rollMode noOptions) ?t2
           else (Inr (), ?t2)))"
    using pair_fstI[OF run] pair_fstI[OF chat] by (simp add: demoOriginalDraw_def)
  have A: "wrappedDraw demoHost (demoOriginalDraw [0, 8]) ''Loot'' noOptions demoState =
      (Inr ?d, errorLogged (Thrown ''formula'') ?s2)"
    using draw_wrapper_contains_errors[where wrapped = "demoOriginalDraw [0, 8]" and options = noOptions
        and s = demoState and h = demoHost and d = ?d and ?s1.0 = demoState
        and e = "Thrown ''formula''" and ?s2.0 = ?s2 and tableName = "''Loot''"] a
    by blast
  have B: "wrappedDraw chatFailsHost (demoOriginalDraw [1]) ''Loot'' noOptions demoState =
      (Inr (?e\<lparr>results := [2, 2]\<rparr>), errorLogged (Thrown ''chat'')
         (snd (if displayChat noOptions \<noteq> Some False \<and> settingModifyChat chatFailsHost (world ?t2)
           then sendQuantityChat chatFailsHost ''Loot'' [2, 2] (roll ?e) (rollMode noOptions) ?t2
           else (Inr (), ?t2))))"
    using draw_wrapper_contains_errors[where wrapped = "demoOriginalDraw [1]" and options = noOptions
        and s = demoState and h = chatFailsHost and d = ?e and ?s1.0 = demoState
        and e = "Thrown ''chat''" and ?s2.0 = ?t2 and tableName = "''Loot''" and rs = "[2, 2]"
        and ?s3.0 = "snd (if displayChat noOptions \<noteq> Some False \<and> settingModifyChat chatFailsHost (world ?t2)
           then sendQuantityChat chatFailsHost ''Loot'' [2, 2] (roll ?e) (rollMode noOptions) ?t2
           else (Inr (), ?t2))"] b
    by blast
  show ?thesis
    unfolding A B by simp
qed

text \<open>
  C8 as stated gives the caller the unexpanded result whenever a step after a completed
  draw throws. When the chat message throws, the expanded list has already been stored in
  the draw result: the draw yields result 1 and the caller receives the two results of its
  expansion.
\<close>

theorem wrapper_returns_expanded_results_when_chat_throws:
  "fst (demoOriginalDraw [1] noOptions demoState) = Inr \<lparr>results = [1], roll = 7\<rparr>
   \<and> fst (processResults chatFailsHost [1] 0 demoState) = Inr [2, 2]
   \<and> fst (wrappedDraw chatFailsHost (demoOriginalDraw [1]) ''Loot'' noOptions demoState) =
       Inr \<lparr>results = [2, 2], roll = 7\<rparr>
   \<and> console (snd (wrappedDraw chatFailsHost (demoOriginalDraw [1]) ''Loot'' noOptions demoState)) =
       [Error ''table-quantities | Error processing table draw:'' (Thrown ''chat'')]"
  by (simp add: wrap_defs run_defs demo_defs)

section \<open>The creation hook\<close>

lemma map_of_assign: "map_of (assign k v kvs) = (map_of kvs)(k \<mapsto> v)"
  by (induction kvs) auto

lemma getProp_assign:
  "getProp (JObj (assign k v kvs)) k' = (if k' = k then v else getProp (JObj kvs) k')"
  by (simp add: getProp_def map_of_assign)

lemma getPath_undefined: "getPath JUndefined ks = JUndefined"
  by (induction ks) (simp_all add: getProp_def)

lemma getPath_empty_object: "ks \<noteq> [] \<Longrightarrow> getPath (JObj []) ks = JUndefined"
  by (cases ks) (simp_all add: getProp_def getPath_undefined)

lemma setAt_object: "setAt ks v target = Inr t' \<Longrightarrow> ks \<noteq> [] \<Longrightarrow> \<exists>kvs. target = JObj kvs"
  by (cases ks; cases "tl ks"; cases target) auto

lemma setAt_get: "setAt ks v target = Inr t' \<Longrightarrow> ks \<noteq> [] \<Longrightarrow> getPath t' ks = v"
proof (induction ks v target arbitrary: t' rule: setAt.induct)
  case (1 v target)
  then show ?case by simp
next
  case (2 k v target)
  then show ?case by (cases target) (auto simp: getProp_assign)
next
  case (3 k k2 ks v target)
  then show ?case
    by (cases target) (auto simp: getProp_assign split: sum.splits)
qed

lemma setAt_frame:
  "setAt ks v target = Inr t' \<Longrightarrow> \<not> prefix ks ks' \<Longrightarrow> \<not> prefix ks' ks
   \<Longrightarrow> getPath t' ks' = getPath target ks'"
proof (induction ks v target arbitrary: t' ks' rule: setAt.induct)
  case (1 v target)
  then show ?case by simp
next
  case (2 k v target)
  then obtain kvs where t: "target = JObj kvs" by (cases target) auto
  from 2 obtain k' rest where ks': "ks' = k' # rest" by (cases ks') auto
  from 2 ks' have "k' \<noteq> k" by auto
  with 2 t ks' show ?case by (auto simp: getProp_assign)
next
  case (3 k k2 ks v target)
  then obtain kvs where t: "target = JObj kvs" by (cases target) auto
  from 3 obtain k' rest where ks': "ks' = k' # rest" by (cases ks') auto
  let ?c = "case map_of kvs k of None \<Rightarrow> JObj [] | Some c \<Rightarrow> c"
  from 3(2) t obtain c' where c': "setAt (k2 # ks) v ?c = Inr c'" and t': "t' = JObj (assign k c' kvs)"
    by (auto split: sum.splits)
  show ?case
  proof (cases "k' = k")
    case False
    with t t' ks' show ?thesis by (simp add: getProp_assign)
  next
    case True
    with 3(3,4) ks' have np: "\<not> prefix (k2 # ks) rest" "\<not> prefix rest (k2 # ks)" by auto
    then have rest: "rest \<noteq> []" by auto
    have "getPath c' rest = getPath ?c rest"
      using "3.IH"[OF t c' np] .
    moreover have "getPath ?c rest = getPath (getProp target k) rest"
      using rest t by (auto simp: getProp_def getPath_empty_object getPath_undefined split: option.splits)
    ultimately show ?thesis
      using True t' ks' by (simp add: getProp_assign)
  qed
qed

lemma splitDots_nonempty: "splitDots p \<noteq> []"
  by (induction p) (auto split: list.splits)

text \<open>
  C10. The source reference is read from the creation data and, when the data has none,
  from the item. The hook returns the data and the state as they are when the reference is
  missing or falsy or when nothing is queued for it. Otherwise it takes the first quantity
  off the queue of the reference (removing the key when the queue becomes empty) and
  leaves the objects, the ledger and the host state alone, whatever the write that follows
  does. When the write throws, the hook throws with the quantity already taken. When the
  write returns, the new data is the old one for an empty path; for any other path it has
  the quantity at the path, and it reads as before at every path that is neither a prefix
  nor an extension of it.
\<close>

theorem creation_hook_applies_one_quantity:
  "(falsy (sourceIdOf item data) \<or> queueFor s (sourceIdOf item data) = None
      \<or> queueFor s (sourceIdOf item data) = Some []
     \<longrightarrow> preCreateItem h item data s = (Inr data, s))
   \<and> (sourceIdOf item data = JStr u \<and> u \<noteq> [] \<and> pendingQuantities s u = Some (q # qs)
     \<longrightarrow> pendingQuantities (snd (preCreateItem h item data s)) =
            (if qs = [] then (pendingQuantities s)(u := None) else (pendingQuantities s)(u \<mapsto> qs))
        \<and> heap (snd (preCreateItem h item data s)) = heap s
        \<and> resultQuantities (snd (preCreateItem h item data s)) = resultQuantities s
        \<and> world (snd (preCreateItem h item data s)) = world s
        \<and> (setProperty data (settingQuantityPath h (world s)) (JNum q) = Inl e
             \<longrightarrow> fst (preCreateItem h item data s) = Inl e
                 \<and> console (snd (preCreateItem h item data s)) = console s)
        \<and> (setProperty data (settingQuantityPath h (world s)) (JNum q) = Inr data'
             \<longrightarrow> fst (preCreateItem h item data s) = Inr data'
                 \<and> (settingQuantityPath h (world s) = [] \<longrightarrow> data' = data)
                 \<and> (settingQuantityPath h (world s) \<noteq> []
                      \<longrightarrow> getPath data' (splitDots (settingQuantityPath h (world s))) = JNum q)
                 \<and> (\<forall>ks. \<not> prefix (splitDots (settingQuantityPath h (world s))) ks
                         \<and> \<not> prefix ks (splitDots (settingQuantityPath h (world s)))
                       \<longrightarrow> getPath data' ks = getPath data ks)))"
proof (intro conjI impI)
  assume "falsy (sourceIdOf item data) \<or> queueFor s (sourceIdOf item data) = None
      \<or> queueFor s (sourceIdOf item data) = Some []"
  then show "preCreateItem h item data s = (Inr data, s)"
    by (auto simp: preCreateItem_def Let_def)
next
  assume a: "sourceIdOf item data = JStr u \<and> u \<noteq> [] \<and> pendingQuantities s u = Some (q # qs)"
  let ?path = "settingQuantityPath h (world s)"
  let ?s1 = "s\<lparr>pendingQuantities := (if qs = [] then (pendingQuantities s)(u := None)
                                else (pendingQuantities s)(u \<mapsto> qs))\<rparr>"
  from a have run: "preCreateItem h item data s =
      (case setProperty data ?path (JNum q) of
         Inl e \<Rightarrow> (Inl e, ?s1)
       | Inr data' \<Rightarrow>
           (Inr data',
            ?s1\<lparr>console := console s @
              [Log (MODULE_ID @ '' | Applied quantity'') q
                 (case (if nullish (getProp data' ''name'') then getProp item ''name''
                        else getProp data' ''name'') of JStr n \<Rightarrow> n | _ \<Rightarrow> [])
                 ?path]\<rparr>))"
    by (auto simp: preCreateItem_def Let_def falsy_def queueFor_def split: sum.splits)
  show "pendingQuantities (snd (preCreateItem h item data s)) =
            (if qs = [] then (pendingQuantities s)(u := None) else (pendingQuantities s)(u \<mapsto> qs))"
    and "heap (snd (preCreateItem h item data s)) = heap s"
    and "resultQuantities (snd (preCreateItem h item data s)) = resultQuantities s"
    and "world (snd (preCreateItem h item data s)) = world s"
    unfolding run by (simp_all split: sum.splits)
  {
    assume "setProperty data ?path (JNum q) = Inl e"
    then show "fst (preCreateItem h item data s) = Inl e"
      and "console (snd (preCreateItem h item data s)) = console s"
      unfolding run by simp_all
  }
  {
    assume w: "setProperty data ?path (JNum q) = Inr data'"
    then show "fst (preCreateItem h item data s) = Inr data'"
      unfolding run by simp
    {
      assume "?path = []"
      with w show "data' = data" by (simp add: setProperty_def)
    }
    {
      assume "?path \<noteq> []"
      with w have set: "setAt (splitDots ?path) (JNum q) data = Inr data'"
        by (simp add: setProperty_def)
      show "getPath data' (splitDots ?path) = JNum q"
        by (rule setAt_get[OF set splitDots_nonempty])
    }
    show "\<forall>ks. \<not> prefix (splitDots ?path) ks \<and> \<not> prefix ks (splitDots ?path)
              \<longrightarrow> getPath data' ks = getPath data ks"
    proof (cases "?path = []")
      case True
      with w show ?thesis by (simp add: setProperty_def)
    next
      case False
      with w have set: "setAt (splitDots ?path) (JNum q) data = Inr data'"
        by (simp add: setProperty_def)
      show ?thesis using setAt_frame[OF set] by blast
    qed
  }
qed

theorem creation_hook_applies_one_quantity_witness:
  "preCreateItem demoHost demoItem demoData demoState = (Inr demoData, demoState)
   \<and> fst (preCreateItem demoHost demoItem demoData (queuedState [3, 1])) =
       Inr (JObj [(''name'', JStr ''Torch''),
                  (''flags'', JObj [(''core'', JObj [(''sourceId'', JStr ''Item.abc'')])]),
                  (''system'', JObj [(''price'', JNum 1), (''quantity'', JNum 3)])])
   \<and> pendingQuantities (snd (preCreateItem demoHost demoItem demoData (queuedState [3, 1]))) ''Item.abc''
       = Some [1]
   \<and> fst (preCreateItem demoHost demoItem
            (JObj [(''name'', JStr ''Torch''), (''system'', JNum 5)]) (queuedState [3, 1]))
       = Inl (Thrown ''TypeError'')
   \<and> pendingQuantities (snd (preCreateItem demoHost demoItem
            (JObj [(''name'', JStr ''Torch''), (''system'', JNum 5)]) (queuedState [3, 1]))) ''Item.abc''
       = Some [1]
   \<and> fst (preCreateItem (demoHost\<lparr>settingQuantityPath := (\<lambda>w. [])\<rparr>) demoItem demoData (queuedState [3]))
       = Inr demoData
   \<and> pendingQuantities (snd (preCreateItem (demoHost\<lparr>settingQuantityPath := (\<lambda>w. [])\<rparr>) demoItem demoData
          (queuedState [3]))) ''Item.abc'' = None"
proof -
  let ?d' = "JObj [(''name'', JStr ''Torch''),
                  (''flags'', JObj [(''core'', JObj [(''sourceId'', JStr ''Item.abc'')])]),
                  (''system'', JObj [(''price'', JNum 1), (''quantity'', JNum 3)])]"
  let ?broken = "JObj [(''name'', JStr ''Torch''), (''system'', JNum 5)]"
  let ?h0 = "demoHost\<lparr>settingQuantityPath := (\<lambda>w. [])\<rparr>"
  have a: "falsy (sourceIdOf demoItem demoData) \<or> queueFor demoState (sourceIdOf demoItem demoData) = None
      \<or> queueFor demoState (sourceIdOf demoItem demoData) = Some []"
    by (simp add: queueFor_def sourceIdOf_def optChain_def nullish_def getProp_def demoData_def demoState_def)
  have b: "sourceIdOf demoItem demoData = JStr ''Item.abc'' \<and> ''Item.abc'' \<noteq> []
       \<and> pendingQuantities (queuedState [3, 1]) ''Item.abc'' = Some (3 # [1])"
    by (simp add: sourceIdOf_def optChain_def nullish_def getProp_def demoData_def queuedState_def
        demoState_def)
  have b': "setProperty demoData (settingQuantityPath demoHost (world (queuedState [3, 1]))) (JNum 3) = Inr ?d'"
    by (simp add: demoData_def demoHost_def setProperty_def)
  have c: "sourceIdOf demoItem ?broken = JStr ''Item.abc'' \<and> ''Item.abc'' \<noteq> []
       \<and> pendingQuantities (queuedState [3, 1]) ''Item.abc'' = Some (3 # [1])"
    by (simp add: sourceIdOf_def optChain_def nullish_def getProp_def demoItem_def queuedState_def
        demoState_def)
  have c': "setProperty ?broken (settingQuantityPath demoHost (world (queuedState [3, 1]))) (JNum 3)
              = Inl (Thrown ''TypeError'')"
    by (simp add: demoHost_def setProperty_def)
  have d: "sourceIdOf demoItem demoData = JStr ''Item.abc'' \<and> ''Item.abc'' \<noteq> []
       \<and> pendingQuantities (queuedState [3]) ''Item.abc'' = Some (3 # [])"
    by (simp add: sourceIdOf_def optChain_def nullish_def getProp_def demoData_def queuedState_def
        demoState_def)
  have d': "setProperty demoData (settingQuantityPath ?h0 (world (queuedState [3]))) (JNum 3) = Inr demoData"
    by (simp add: setProperty_def)
  have A: "preCreateItem demoHost demoItem demoData demoState = (Inr demoData, demoState)"
    using creation_hook_applies_one_quantity[where item = demoItem and data = demoData
        and s = demoState and h = demoHost] a
    by blast
  have B: "fst (preCreateItem demoHost demoItem demoData (queuedState [3, 1])) = Inr ?d'
     \<and> pendingQuantities (snd (preCreateItem demoHost demoItem demoData (queuedState [3, 1]))) =
        (if [1::int] = [] then (pendingQuantities (queuedState [3, 1]))(''Item.abc'' := None)
         else (pendingQuantities (queuedState [3, 1]))(''Item.abc'' \<mapsto> [1]))"
    using creation_hook_applies_one_quantity[where item = demoItem and data = demoData
        and s = "queuedState [3, 1]" and h = demoHost and u = "''Item.abc''" and q = 3 and qs = "[1]"
        and data' = ?d'] b b'
    by blast
  have C: "fst (preCreateItem demoHost demoItem ?broken (queuedState [3, 1])) = Inl (Thrown ''TypeError'')
     \<and> pendingQuantities (snd (preCreateItem demoHost demoItem ?broken (queuedState [3, 1]))) =
        (if [1::int] = [] then (pendingQuantities (queuedState [3, 1]))(''Item.abc'' := None)
         else (pendingQuantities (queuedState [3, 1]))(''Item.abc'' \<mapsto> [1]))"
    using creation_hook_applies_one_quantity[where item = demoItem and data = ?broken
        and s = "queuedState [3, 1]" and h = demoHost and u = "''Item.abc''" and q = 3 and qs = "[1]"
        and e = "Thrown ''TypeError''"] c c'
    by blast
  have D: "fst (preCreateItem ?h0 demoItem demoData (queuedState [3])) = Inr demoData
     \<and> pendingQuantities (snd (preCreateItem ?h0 demoItem demoData (queuedState [3]))) =
        (if ([]::int list) = [] then (pendingQuantities (queuedState [3]))(''Item.abc'' := None)
         else (pendingQuantities (queuedState [3]))(''Item.abc'' \<mapsto> []))"
    using creation_hook_applies_one_quantity[where item = demoItem and data = demoData
        and s = "queuedState [3]" and h = ?h0 and u = "''Item.abc''" and q = 3 and qs = "[]"
        and data' = demoData] d d'
    by blast
  show ?thesis
    using A B C D by simp
qed

text \<open>
  C10 as stated makes the hook a no-op whenever the creation data has no source
  reference. The reference of the item is used then: data without a reference is given a
  quantity when the item has one.
\<close>

theorem creation_hook_falls_back_to_item:
  "optChain (optChain (optChain bareData ''flags'') ''core'') ''sourceId'' = JUndefined
   \<and> pendingQuantities (queuedState [2]) ''Item.abc'' = Some [2]
   \<and> fst (preCreateItem demoHost demoItem bareData (queuedState [2])) =
       Inr (JObj [(''name'', JStr ''Torch''), (''system'', JObj [(''quantity'', JNum 2)])])
   \<and> pendingQuantities (snd (preCreateItem demoHost demoItem bareData (queuedState [2]))) ''Item.abc''
       = None"
  by (simp add: preCreateItem_def sourceIdOf_def queueFor_def optChain_def nullish_def falsy_def
      getProp_def demoItem_def bareData_def queuedState_def demoState_def demoHost_def
      setProperty_def Let_def)

section \<open>The pending queues\<close>

text \<open>
  A reflexive and transitive relation between the values of a component of the state
  before and after, when the component does not depend on the host's own state nor on the
  ledger, and the relation holds across a warning, across the draws of the host and across
  the item branch, holds across the processing of a result and of a list of results.
\<close>

lemma forLoop_rel:
  assumes refl: "\<And>m. R m m"
    and trans: "\<And>a b c. R a b \<Longrightarrow> R b c \<Longrightarrow> R a c"
    and step: "\<And>a t. R (f t) (f (snd (body a t)))"
  shows "R (f s) (f (snd (forLoop n body acc s)))"
proof (induction n arbitrary: acc s)
  case 0
  show ?case by (simp add: refl)
next
  case (Suc n)
  obtain v s' where b: "body acc s = (v, s')" by fastforce
  have one: "R (f s) (f s')" using step[of s acc] b by simp
  show ?case
  proof (cases v)
    case (Inl e)
    then show ?thesis using b one by simp
  next
    case (Inr a')
    then show ?thesis using b trans[OF one Suc.IH[of s' a']] by simp
  qed
qed

text \<open>The state after the item branch, from the state in which the target was resolved.\<close>

definition itemState :: "'w state \<Rightarrow> rid \<Rightarrow> string \<Rightarrow> string \<Rightarrow> int \<Rightarrow> string option \<Rightarrow> 'w state" where
  "itemState s r u nm q itemImg =
     s\<lparr>heap := (if rtype (heap s r) = ''text''
                 then (heap s)(r := updateSource (heap s r)
                         \<lparr>rtype = ''document'', documentUuid = Some u,
                          name = nm, description = Some [], img = itemImg\<rparr>)
                 else heap s),
       resultQuantities := (resultQuantities s)
         (r \<mapsto> \<lparr>q_quantity = q, q_documentUuid = u, q_name = nm, expandedToSubResults = None\<rparr>),
       pendingQuantities := (pendingQuantities s)
         (u \<mapsto> (case pendingQuantities s u of None \<Rightarrow> [] | Some old \<Rightarrow> old) @ [q])\<rparr>"

lemma process_rel:
  fixes R :: "'b \<Rightarrow> 'b \<Rightarrow> bool" and f :: "'w state \<Rightarrow> 'b"
  assumes refl: "\<And>m. R m m"
    and trans: "\<And>a b c. R a b \<Longrightarrow> R b c \<Longrightarrow> R a c"
    and fw: "\<And>s w. f (s\<lparr>world := w\<rparr>) = f s"
    and fq: "\<And>s m. f (s\<lparr>resultQuantities := m\<rparr>) = f s"
    and fwarn: "\<And>s msg. R (f s) (f (warn msg s))"
  shows "(\<And>t opts s. R (f s) (f (snd (tableDraw h t opts s))))
     \<Longrightarrow> (\<And>u w itemImg w' s r nm q. fromUuid h u w = (Inr (Some (Item itemImg)), w') \<Longrightarrow> 0 < q
            \<Longrightarrow> R (f s) (f (itemState s r u nm q itemImg)))
     \<Longrightarrow> R (f s) (f (snd (processResult h r p depth s)))"
    and "(\<And>t opts s. R (f s) (f (snd (tableDraw h t opts s))))
     \<Longrightarrow> (\<And>u w itemImg w' s r nm q. fromUuid h u w = (Inr (Some (Item itemImg)), w') \<Longrightarrow> 0 < q
            \<Longrightarrow> R (f s) (f (itemState s r u nm q itemImg)))
     \<Longrightarrow> R (f s) (f (snd (processLoop h rs depth acc s)))"
proof (induction h r p depth s and h rs depth acc s rule: processResult_processLoop.induct)
  case (1 h r p depth s)
  note draw = "1.prems"(1) and enq = "1.prems"(2)
  obtain v1 s1 where e: "evaluateFormula h (formula p) s = (v1, s1)" by fastforce
  have p1: "f s1 = f s"
    using e by (auto simp: evaluateFormula_def fw split: prod.splits)
  show ?case
  proof (cases v1)
    case (Inl x)
    then show ?thesis using e p1 by (simp add: processResult.simps refl)
  next
    case (Inr q)
    note q = Inr
    show ?thesis
    proof (cases "q \<le> 0")
      case True
      then show ?thesis using e q p1 by (simp add: processResult.simps refl)
    next
      case False
      obtain v2 s2 where f: "resolveUuid h (uuid p) s1 = (v2, s2)" by fastforce
      have p2: "f s2 = f s"
        using f p1 by (auto simp: resolveUuid_def fw split: prod.splits)
      show ?thesis
      proof (cases v2)
        case (Inl x)
        then show ?thesis using e q False f p2 by (simp add: processResult.simps refl)
      next
        case (Inr d)
        note d = Inr
        show ?thesis
        proof (cases d)
          case None
          then show ?thesis using e q False f d p2 by (simp add: processResult.simps) (metis fwarn)
        next
          case (Some dc)
          show ?thesis
          proof (cases dc)
            case OtherDoc
            then show ?thesis
              using e q False f d Some p2 by (simp add: processResult.simps) (metis fwarn)
          next
            case (Item itemImg)
            have "fromUuid h (uuid p) (world s1) = (Inr (Some (Item itemImg)), world s2)"
              using f d Some Item by (auto simp: resolveUuid_def split: prod.splits)
            then have rel: "R (f s2) (f (itemState s2 r (uuid p) (pname p) q itemImg))"
              using False by (intro enq) simp_all
            have pq: "snd (processResult h r p depth s) = itemState s2 r (uuid p) (pname p) q itemImg"
              using processResult_item[of h p s q s1 itemImg s2 r depth] e q False f d Some Item
              by (simp add: itemState_def)
            show ?thesis
              unfolding pq using rel by (simp only: p2)
          next
            case (RollTable t)
            show ?thesis
            proof (cases "MAX_RECURSION_DEPTH \<le> depth")
              case True
              then show ?thesis
                using e q False f d Some RollTable p2 by (simp add: processResult.simps) (metis fwarn)
            next
              case deep: False
              have body: "R (f t') (f (snd (drawOnce h t depth a t')))" for a t'
              proof -
                obtain v3 s3 where dr: "tableDraw h t drawOptions t' = (v3, s3)" by fastforce
                have r1: "R (f t') (f s3)"
                  using draw[of t' t drawOptions] dr by simp
                show ?thesis
                proof (cases v3)
                  case (Inl x)
                  then show ?thesis using dr r1 by (simp add: drawOnce_def)
                next
                  case (Inr drawn)
                  have "R (f s3)
                      (f (snd (processLoop h (results drawn) (depth + 1) [] s3)))"
                    using "1.IH"[OF e[symmetric] q False f[symmetric] d Some RollTable deep _ Inr, of s3 t']
                      dr draw enq
                    by (simp add: drawOptions_def)
                  then have "R (f t')
                      (f (snd (processLoop h (results drawn) (depth + 1) [] s3)))"
                    using trans[OF r1] by blast
                  then show ?thesis
                    using dr Inr by (auto simp: drawOnce_def processResults_def split: prod.splits sum.splits)
                qed
              qed
              have loop: "R (f s2)
                  (f (snd (forLoop (nat q) (drawOnce h t depth) [] s2)))"
                by (rule forLoop_rel[where f = f, OF refl trans body])
              show ?thesis
                using loop p2 processResult_table[of h p s q s1 t s2 depth r] e q False f d Some RollTable deep
                by (auto simp: fq split: prod.splits sum.splits)
            qed
          qed
        qed
      qed
    qed
  qed
next
  case (2 h depth processed s)
  show ?case by (simp add: refl)
next
  case (3 h r rs depth processed s)
  note draw = "3.prems"(1) and enq = "3.prems"(2)
  show ?case
  proof (cases "parseQuantityResult (heap s r)")
    case None
    then show ?thesis using "3.IH"(1)[OF None draw enq] by simp
  next
    case (Some p)
    obtain v s' where pr: "processResult h r p depth s = (v, s')" by fastforce
    have one: "R (f s) (f s')"
      using "3.IH"(2)[OF Some draw enq] pr by simp
    show ?thesis
    proof (cases v)
      case (Inl x)
      then show ?thesis using Some pr one by simp
    next
      case (Inr b)
      have "R (f s') (f (snd (processLoop h rs depth (processed @ b) s')))"
        using "3.IH"(3)[OF Some pr[symmetric] Inr draw enq] .
      then show ?thesis
        using Some pr Inr trans[OF one] by simp
    qed
  qed
qed

lemma processResults_rel:
  fixes R :: "(string \<rightharpoonup> int list) \<Rightarrow> (string \<rightharpoonup> int list) \<Rightarrow> bool"
  assumes "\<And>m. R m m"
    and "\<And>a b c. R a b \<Longrightarrow> R b c \<Longrightarrow> R a c"
    and "\<And>t opts s. R (pendingQuantities s) (pendingQuantities (snd (tableDraw h t opts s)))"
    and "\<And>u w itemImg w' m q. fromUuid h u w = (Inr (Some (Item itemImg)), w') \<Longrightarrow> 0 < q
            \<Longrightarrow> R m (m(u \<mapsto> pendingOf m u @ [q]))"
  shows "R (pendingQuantities s) (pendingQuantities (snd (processResults h rs depth s)))"
  unfolding processResults_def
proof (rule process_rel(2)[where R = R and f = pendingQuantities])
  show "R m m" for m by (rule assms(1))
  show "R a c" if "R a b" "R b c" for a b c using that by (rule assms(2))
  show "pendingQuantities (s\<lparr>world := w\<rparr>) = pendingQuantities s" for s :: "'a state" and w
    by simp
  show "pendingQuantities (s\<lparr>resultQuantities := m\<rparr>) = pendingQuantities s" for s :: "'a state" and m
    by simp
  show "R (pendingQuantities s) (pendingQuantities (warn msg s))" for s :: "'a state" and msg
    by (simp add: warn_def assms(1))
  show "R (pendingQuantities s) (pendingQuantities (snd (tableDraw h t opts s)))" for t opts s
    by (rule assms(3))
  show "R (pendingQuantities s) (pendingQuantities (itemState s r u nm q itemImg))"
    if "fromUuid h u w = (Inr (Some (Item itemImg)), w')" "0 < q"
    for u w itemImg w' s r nm q
    using assms(4)[OF that, of "pendingQuantities s"] by (simp add: itemState_def pendingOf_def)
qed

lemma processResults_noEmpty:
  assumes "\<forall>t opts s'. noEmptyQueue (pendingQuantities s')
             \<longrightarrow> noEmptyQueue (pendingQuantities (snd (tableDraw h t opts s')))"
    and "noEmptyQueue (pendingQuantities s)"
  shows "noEmptyQueue (pendingQuantities (snd (processResults h rs depth s)))"
proof -
  have "noEmptyQueue (pendingQuantities s)
      \<longrightarrow> noEmptyQueue (pendingQuantities (snd (processResults h rs depth s)))"
    by (rule processResults_rel[where R = "\<lambda>m m'. noEmptyQueue m \<longrightarrow> noEmptyQueue m'"])
      (insert assms(1), auto simp: noEmptyQueue_def)
  then show ?thesis using assms(2) by simp
qed

lemma processResults_prefix:
  assumes "\<forall>t opts s' u. prefix (pendingOf (pendingQuantities s') u)
             (pendingOf (pendingQuantities (snd (tableDraw h t opts s'))) u)"
  shows "\<forall>u. prefix (pendingOf (pendingQuantities s) u)
             (pendingOf (pendingQuantities (snd (processResults h rs depth s))) u)"
proof (rule processResults_rel[where R = "\<lambda>m m'. \<forall>u. prefix (pendingOf m u) (pendingOf m' u)"])
  show "\<forall>u. prefix (pendingOf m u) (pendingOf m u)" for m :: "string \<rightharpoonup> int list"
    by simp
  show "\<forall>u. prefix (pendingOf a u) (pendingOf c u)"
    if "\<forall>u. prefix (pendingOf a u) (pendingOf b u)" "\<forall>u. prefix (pendingOf b u) (pendingOf c u)"
    for a b c :: "string \<rightharpoonup> int list"
    using that by (meson prefix_order.trans)
  show "\<forall>u. prefix (pendingOf (pendingQuantities s) u)
            (pendingOf (pendingQuantities (snd (tableDraw h t opts s))) u)" for t opts s
    using assms by blast
  show "\<forall>ua. prefix (pendingOf m ua) (pendingOf (m(u \<mapsto> pendingOf m u @ [q])) ua)"
    for u :: string and m :: "string \<rightharpoonup> int list" and q :: int
    by (simp add: pendingOf_def)
qed

lemma processResults_same:
  assumes "\<forall>t opts s'. pendingQuantities (snd (tableDraw h t opts s')) = pendingQuantities s'"
    and "\<forall>u w itemImg w'. fromUuid h u w \<noteq> (Inr (Some (Item itemImg)), w')"
  shows "pendingQuantities (snd (processResults h rs depth s)) = pendingQuantities s"
  by (rule processResults_rel[where R = "\<lambda>m m'. m' = m"]) (insert assms, auto)

lemma hook_noEmpty:
  "noEmptyQueue (pendingQuantities s)
   \<Longrightarrow> noEmptyQueue (pendingQuantities (snd (preCreateItem h item data s)))"
  by (auto simp: preCreateItem_def Let_def noEmptyQueue_def split: option.splits list.splits sum.splits)

lemma hook_suffix:
  "suffix (pendingOf (pendingQuantities (snd (preCreateItem h item data s))) u)
          (pendingOf (pendingQuantities s) u)"
  by (auto simp: preCreateItem_def Let_def pendingOf_def queueFor_def suffix_def
      split: option.splits list.splits sum.splits jsval.splits)

lemma pendingOf_Cons: "pendingOf m u = x # xs \<Longrightarrow> m u = Some (x # xs)"
  by (simp add: pendingOf_def split: option.splits)

text \<open>
  C4. The queue of a target is first in, first out, and no key keeps an empty queue.
  An item target with \<open>q > 0\<close> appends \<open>q\<close> at the end of the queue of its target and
  touches no other key. The hook with a queued reference applies the first quantity of the
  queue, leaves the rest in order, removes the key when nothing is left and touches no other
  key. The hook keeps the invariant and only shortens queues at the front. Expansion keeps
  the invariant and only extends queues, for a host whose draws do so; and it leaves the
  queues as they are for a host whose draws do and that resolves no target to an item.
\<close>

theorem pending_queue_is_fifo:
  "(parseQuantityResult (heap s r) = Some p
      \<and> rollTotal h (trim (formula p)) (world s) = (Inr q, w1) \<and> 0 < q
      \<and> fromUuid h (uuid p) w1 = (Inr (Some (Item itemImg)), w2)
     \<longrightarrow> pendingOf (pendingQuantities (snd (processResults h [r] depth s))) (uuid p) =
           pendingOf (pendingQuantities s) (uuid p) @ [q]
        \<and> (\<forall>u'. u' \<noteq> uuid p
             \<longrightarrow> pendingQuantities (snd (processResults h [r] depth s)) u' = pendingQuantities s u'))
   \<and> (sourceIdOf item data = JStr u \<and> u \<noteq> [] \<and> pendingQuantities s u = Some (q # qs)
      \<and> settingQuantityPath h (world s) \<noteq> []
      \<and> setProperty data (settingQuantityPath h (world s)) (JNum q) = Inr data'
     \<longrightarrow> fst (preCreateItem h item data s) = Inr data'
        \<and> getPath data' (splitDots (settingQuantityPath h (world s))) = JNum q
        \<and> pendingOf (pendingQuantities (snd (preCreateItem h item data s))) u = qs
        \<and> (qs = [] \<longrightarrow> pendingQuantities (snd (preCreateItem h item data s)) u = None)
        \<and> (\<forall>u'. u' \<noteq> u
             \<longrightarrow> pendingQuantities (snd (preCreateItem h item data s)) u' = pendingQuantities s u'))
   \<and> (noEmptyQueue (pendingQuantities s)
     \<longrightarrow> noEmptyQueue (pendingQuantities (snd (preCreateItem h item data s))))
   \<and> (\<forall>u'. suffix (pendingOf (pendingQuantities (snd (preCreateItem h item data s))) u')
                   (pendingOf (pendingQuantities s) u'))
   \<and> ((\<forall>t opts s'. noEmptyQueue (pendingQuantities s')
           \<longrightarrow> noEmptyQueue (pendingQuantities (snd (tableDraw h t opts s'))))
       \<and> noEmptyQueue (pendingQuantities s)
     \<longrightarrow> noEmptyQueue (pendingQuantities (snd (processResults h rs depth s))))
   \<and> ((\<forall>t opts s' u'. prefix (pendingOf (pendingQuantities s') u')
           (pendingOf (pendingQuantities (snd (tableDraw h t opts s'))) u'))
     \<longrightarrow> (\<forall>u'. prefix (pendingOf (pendingQuantities s) u')
           (pendingOf (pendingQuantities (snd (processResults h rs depth s))) u')))
   \<and> ((\<forall>t opts s'. pendingQuantities (snd (tableDraw h t opts s')) = pendingQuantities s')
       \<and> (\<forall>u' w itemImg' w'. fromUuid h u' w \<noteq> (Inr (Some (Item itemImg')), w'))
     \<longrightarrow> pendingQuantities (snd (processResults h rs depth s)) = pendingQuantities s)"
proof (intro conjI impI)
  assume a: "parseQuantityResult (heap s r) = Some p
      \<and> rollTotal h (trim (formula p)) (world s) = (Inr q, w1) \<and> 0 < q
      \<and> fromUuid h (uuid p) w1 = (Inr (Some (Item itemImg)), w2)"
  then have e: "evaluateFormula h (formula p) s = (Inr q, s\<lparr>world := w1\<rparr>)"
    by (simp add: evaluateFormula_eq)
  from a have f: "resolveUuid h (uuid p) (s\<lparr>world := w1\<rparr>) = (Inr (Some (Item itemImg)), s\<lparr>world := w2\<rparr>)"
    by (simp add: resolveUuid_def)
  from a have p: "parseQuantityResult (heap s r) = Some p" and q: "0 < q" by simp_all
  note step = processResults_single[OF p processResult_item[OF e q f]]
  show "pendingOf (pendingQuantities (snd (processResults h [r] depth s))) (uuid p) =
           pendingOf (pendingQuantities s) (uuid p) @ [q]"
    by (simp add: step pendingOf_def)
  show "\<forall>u'. u' \<noteq> uuid p
             \<longrightarrow> pendingQuantities (snd (processResults h [r] depth s)) u' = pendingQuantities s u'"
    by (simp add: step)
next
  assume b: "sourceIdOf item data = JStr u \<and> u \<noteq> [] \<and> pendingQuantities s u = Some (q # qs)
      \<and> settingQuantityPath h (world s) \<noteq> []
      \<and> setProperty data (settingQuantityPath h (world s)) (JNum q) = Inr data'"
  let ?path = "settingQuantityPath h (world s)"
  from b have set: "setAt (splitDots ?path) (JNum q) data = Inr data'"
    by (auto simp: setProperty_def split: if_splits)
  from b have run: "fst (preCreateItem h item data s) = Inr data'"
    "pendingQuantities (snd (preCreateItem h item data s)) =
       (if qs = [] then (pendingQuantities s)(u := None) else (pendingQuantities s)(u \<mapsto> qs))"
    by (simp_all add: preCreateItem_def Let_def falsy_def queueFor_def)
  show "fst (preCreateItem h item data s) = Inr data'"
    by (rule run(1))
  show "getPath data' (splitDots ?path) = JNum q"
    by (rule setAt_get[OF set splitDots_nonempty])
  show "pendingOf (pendingQuantities (snd (preCreateItem h item data s))) u = qs"
    by (simp add: run(2) pendingOf_def)
  show "pendingQuantities (snd (preCreateItem h item data s)) u = None" if "qs = []"
    using that by (simp add: run(2))
  show "\<forall>u'. u' \<noteq> u
             \<longrightarrow> pendingQuantities (snd (preCreateItem h item data s)) u' = pendingQuantities s u'"
    by (simp add: run(2))
next
  assume "noEmptyQueue (pendingQuantities s)"
  then show "noEmptyQueue (pendingQuantities (snd (preCreateItem h item data s)))"
    by (rule hook_noEmpty)
next
  show "\<forall>u'. suffix (pendingOf (pendingQuantities (snd (preCreateItem h item data s))) u')
                   (pendingOf (pendingQuantities s) u')"
    by (simp add: hook_suffix)
next
  assume "(\<forall>t opts s'. noEmptyQueue (pendingQuantities s')
           \<longrightarrow> noEmptyQueue (pendingQuantities (snd (tableDraw h t opts s'))))
       \<and> noEmptyQueue (pendingQuantities s)"
  then show "noEmptyQueue (pendingQuantities (snd (processResults h rs depth s)))"
    using processResults_noEmpty[of h s rs depth] by blast
next
  assume "\<forall>t opts s' u'. prefix (pendingOf (pendingQuantities s') u')
           (pendingOf (pendingQuantities (snd (tableDraw h t opts s'))) u')"
  then show "\<forall>u'. prefix (pendingOf (pendingQuantities s) u')
           (pendingOf (pendingQuantities (snd (processResults h rs depth s))) u')"
    by (rule processResults_prefix)
next
  assume "(\<forall>t opts s'. pendingQuantities (snd (tableDraw h t opts s')) = pendingQuantities s')
       \<and> (\<forall>u' w itemImg' w'. fromUuid h u' w \<noteq> (Inr (Some (Item itemImg')), w'))"
  then show "pendingQuantities (snd (processResults h rs depth s)) = pendingQuantities s"
    using processResults_same[of h rs depth s] by blast
qed

theorem pending_queue_is_fifo_witness:
  "pendingQuantities (snd (processResults demoHost [9, 10, 11] 0 demoState)) ''Item.abc'' = Some [3, 1, 5]
   \<and> fst (preCreateItem demoHost demoItem demoData
            (snd (processResults demoHost [9, 10, 11] 0 demoState))) = Inr (createdWith 3)
   \<and> fst (preCreateItem demoHost demoItem demoData
            (snd (preCreateItem demoHost demoItem demoData
               (snd (processResults demoHost [9, 10, 11] 0 demoState))))) = Inr (createdWith 1)
   \<and> fst (preCreateItem demoHost demoItem demoData
            (snd (preCreateItem demoHost demoItem demoData
               (snd (preCreateItem demoHost demoItem demoData
                  (snd (processResults demoHost [9, 10, 11] 0 demoState))))))) = Inr (createdWith 5)
   \<and> pendingQuantities
         (snd (preCreateItem demoHost demoItem demoData
            (snd (preCreateItem demoHost demoItem demoData
               (snd (preCreateItem demoHost demoItem demoData
                  (snd (processResults demoHost [9, 10, 11] 0 demoState)))))))) ''Item.abc'' = None
   \<and> noEmptyQueue (pendingQuantities (snd (processResults demoHost [9, 10, 11] 0 demoState)))
   \<and> pendingQuantities (snd (processResults noItemsHost [0, 1, 9] 0 demoState)) = Map.empty"
proof -
  let ?S0 = "snd (processResults demoHost [9, 10, 11] 0 demoState)"
  let ?S1 = "snd (preCreateItem demoHost demoItem demoData ?S0)"
  let ?S2 = "snd (preCreateItem demoHost demoItem demoData ?S1)"
  let ?S3 = "snd (preCreateItem demoHost demoItem demoData ?S2)"
  note deq = pending_queue_is_fifo[THEN conjunct2, THEN conjunct1, rule_format]
  note inv = pending_queue_is_fifo[THEN conjunct2, THEN conjunct2, THEN conjunct2, THEN conjunct2,
      THEN conjunct1, rule_format]
  note same = pending_queue_is_fifo[THEN conjunct2, THEN conjunct2, THEN conjunct2, THEN conjunct2,
      THEN conjunct2, THEN conjunct2, rule_format]
  have src: "sourceIdOf demoItem demoData = JStr ''Item.abc''"
    by (simp add: sourceIdOf_def optChain_def nullish_def getProp_def demoData_def)
  have path: "settingQuantityPath demoHost w = ''system.quantity''" for w
    by (simp add: demoHost_def)
  have put: "setProperty demoData ''system.quantity'' (JNum q) = Inr (createdWith q)" for q
    by (simp add: setProperty_def demoData_def createdWith_def)
  have q0: "pendingQuantities ?S0 ''Item.abc'' = Some (3 # [1, 5])"
    by (simp add: run_defs demo_defs)
  have h0: "sourceIdOf demoItem demoData = JStr ''Item.abc'' \<and> ''Item.abc'' \<noteq> []
      \<and> pendingQuantities ?S0 ''Item.abc'' = Some (3 # [1, 5])
      \<and> settingQuantityPath demoHost (world ?S0) \<noteq> []
      \<and> setProperty demoData (settingQuantityPath demoHost (world ?S0)) (JNum 3) = Inr (createdWith 3)"
    by (simp add: src path put q0)
  have r1: "fst (preCreateItem demoHost demoItem demoData ?S0) = Inr (createdWith 3)"
    and q1: "pendingQuantities ?S1 ''Item.abc'' = Some (1 # [5])"
    using deq[OF h0] by (simp_all add: pendingOf_Cons)
  have h1: "sourceIdOf demoItem demoData = JStr ''Item.abc'' \<and> ''Item.abc'' \<noteq> []
      \<and> pendingQuantities ?S1 ''Item.abc'' = Some (1 # [5])
      \<and> settingQuantityPath demoHost (world ?S1) \<noteq> []
      \<and> setProperty demoData (settingQuantityPath demoHost (world ?S1)) (JNum 1) = Inr (createdWith 1)"
    by (simp add: src path put q1)
  have r2: "fst (preCreateItem demoHost demoItem demoData ?S1) = Inr (createdWith 1)"
    and q2: "pendingQuantities ?S2 ''Item.abc'' = Some (5 # [])"
    using deq[OF h1] by (simp_all add: pendingOf_Cons)
  have h2: "sourceIdOf demoItem demoData = JStr ''Item.abc'' \<and> ''Item.abc'' \<noteq> []
      \<and> pendingQuantities ?S2 ''Item.abc'' = Some (5 # [])
      \<and> settingQuantityPath demoHost (world ?S2) \<noteq> []
      \<and> setProperty demoData (settingQuantityPath demoHost (world ?S2)) (JNum 5) = Inr (createdWith 5)"
    by (simp add: src path put q2)
  have r3: "fst (preCreateItem demoHost demoItem demoData ?S2) = Inr (createdWith 5)"
    and q3: "pendingQuantities ?S3 ''Item.abc'' = None"
    using deq[OF h2] by simp_all
  have i0: "(\<forall>t opts s'. noEmptyQueue (pendingQuantities s')
           \<longrightarrow> noEmptyQueue (pendingQuantities (snd (tableDraw demoHost t opts s'))))
       \<and> noEmptyQueue (pendingQuantities demoState)"
    by (simp add: demo_defs noEmptyQueue_def)
  have n0: "noEmptyQueue (pendingQuantities ?S0)"
    by (rule inv[OF i0])
  have k0: "(\<forall>t opts s'. pendingQuantities (snd (tableDraw noItemsHost t opts s')) = pendingQuantities s')
       \<and> (\<forall>u' w itemImg' w'. fromUuid noItemsHost u' w \<noteq> (Inr (Some (Item itemImg')), w'))"
    by (simp add: noItemsHost_def demo_defs)
  have e0: "pendingQuantities (snd (processResults noItemsHost [0, 1, 9] 0 demoState)) = Map.empty"
    using same[OF k0, of "[0, 1, 9]" 0 demoState] by (simp add: demoState_def)
  show ?thesis
    using q0 r1 r2 r3 q3 n0 e0 by simp
qed


section \<open>The wrapper installed on a table's draw\<close>

text \<open>
  At initialisation the module puts its wrapper on \<^verbatim>\<open>RollTable.prototype.draw\<close>, so the
  \<^verbatim>\<open>doc.draw\<close> of a nested table is the wrapper around the original draw as well, and the
  draws nested in that one are again the wrapper. This recursion is not bounded by the
  code, so it is modelled with fuel: \<open>installed n h\<close> is the host \<open>h\<close> (whose
  \<open>tableDraw\<close> is the original draw) with the wrapper installed \<open>n\<close> levels deep. The
  draws at the innermost level have no fuel left: they log a marker, which no code of the
  module logs, and throw. A run in which the marker is not logged is a run of the module as
  installed; a run that logs it for every amount of fuel does not return.
\<close>

definition fuelMarker :: diag where
  "fuelMarker = Error ''out of fuel'' (Thrown ''fuel'')"

fun installed :: "nat \<Rightarrow> 'w host \<Rightarrow> 'w host" where
  "installed 0 h =
     h\<lparr>tableDraw := (\<lambda>t opts s. (Inl (Thrown ''fuel''), s\<lparr>console := console s @ [fuelMarker]\<rparr>))\<rparr>"
| "installed (Suc n) h =
     h\<lparr>tableDraw := (\<lambda>t opts s. wrappedDraw (installed n h) (tableDraw h t) t opts s)\<rparr>"

lemma installed_fields [simp]:
  "rollTotal (installed n h) = rollTotal h"
  "fromUuid (installed n h) = fromUuid h"
  "settingModifyChat (installed n h) = settingModifyChat h"
  "chatCreate (installed n h) = chatCreate h"
  "hooksCallAll (installed n h) = hooksCallAll h"
  by (cases n; simp)+

lemma processResults_console:
  assumes "\<And>t opts s. set (console s) \<subseteq> set (console (snd (tableDraw h t opts s)))"
  shows "set (console s) \<subseteq> set (console (snd (processResults h rs depth s)))"
  unfolding processResults_def
proof (rule process_rel(2)[where R = "\<lambda>a b. set a \<subseteq> set b" and f = console])
  show "set (console s) \<subseteq> set (console (snd (tableDraw h t opts s)))" for t opts s
    by (rule assms)
qed (auto simp: warn_def itemState_def)

lemma sendQuantityChat_console:
  "console (snd (sendQuantityChat h tableName rs rolled mode s)) = console s"
  by (simp add: sendQuantityChat_def Let_def split: prod.splits)

lemma wrappedDraw_console_after:
  assumes w: "wrapped opts s = (Inr d, s1)"
    and hooks: "\<And>rs s. set (console s) \<subseteq> set (console (snd (hooksCallAll h rs s)))"
  shows "set (console (snd (processResults h (results d) 0 s1)))
           \<subseteq> set (console (snd (wrappedDraw h wrapped tableName opts s)))"
proof -
  obtain v s2 where p: "processResults h (results d) 0 s1 = (v, s2)" by fastforce
  show ?thesis
  proof (cases v)
    case (Inl e)
    then show ?thesis using w p by (auto simp: wrappedDraw_def catchDraw_def)
  next
    case (Inr rs)
    let ?chat = "if displayChat opts \<noteq> Some False \<and> settingModifyChat h (world s2)
                 then sendQuantityChat h tableName rs (roll d) (rollMode opts) s2
                 else (Inr (), s2)"
    obtain c s3 where ch: "?chat = (c, s3)" by fastforce
    have c3: "console s3 = console s2"
      using ch sendQuantityChat_console[of h tableName rs "roll d" "rollMode opts" s2]
      by (auto split: if_splits)
    obtain k s4 where hk: "hooksCallAll h rs s3 = (k, s4)" by fastforce
    have c4: "set (console s3) \<subseteq> set (console s4)"
      using hooks[of s3 rs] hk by simp
    show ?thesis
      using w p Inr ch hk c3 c4
      by (cases c; cases k) (auto simp: wrappedDraw_def catchDraw_def Let_def)
  qed
qed

lemma wrappedDraw_console:
  assumes draws: "\<And>t opts s. set (console s) \<subseteq> set (console (snd (tableDraw h t opts s)))"
    and orig: "\<And>opts s. set (console s) \<subseteq> set (console (snd (wrapped opts s)))"
    and hooks: "\<And>rs s. set (console s) \<subseteq> set (console (snd (hooksCallAll h rs s)))"
  shows "set (console s) \<subseteq> set (console (snd (wrappedDraw h wrapped tableName opts s)))"
proof -
  obtain v s1 where w: "wrapped opts s = (v, s1)" by fastforce
  have c1: "set (console s) \<subseteq> set (console s1)" using orig[of s opts] w by simp
  show ?thesis
  proof (cases v)
    case (Inl e)
    have "set (console s1) \<subseteq> set (console (snd (wrapped opts
             (s1\<lparr>console := console s1 @ [Error (MODULE_ID @ '' | Error processing table draw:'') e]\<rparr>))))"
      using orig[of "s1\<lparr>console := console s1 @ [Error (MODULE_ID @ '' | Error processing table draw:'') e]\<rparr>" opts]
      by auto
    then show ?thesis using w Inl c1 by (auto simp: wrappedDraw_def catchDraw_def)
  next
    case (Inr d)
    have "set (console s1) \<subseteq> set (console (snd (processResults h (results d) 0 s1)))"
      by (rule processResults_console[OF draws])
    moreover have "set (console (snd (processResults h (results d) 0 s1)))
           \<subseteq> set (console (snd (wrappedDraw h wrapped tableName opts s)))"
      using w Inr by (intro wrappedDraw_console_after[OF _ hooks]) simp
    ultimately show ?thesis using c1 by blast
  qed
qed

lemma installed_console:
  assumes orig: "\<And>t opts s. set (console s) \<subseteq> set (console (snd (tableDraw h t opts s)))"
    and hooks: "\<And>rs s. set (console s) \<subseteq> set (console (snd (hooksCallAll h rs s)))"
  shows "set (console s) \<subseteq> set (console (snd (tableDraw (installed n h) t opts s)))"
proof (induction n arbitrary: t opts s)
  case 0
  show ?case by auto
next
  case (Suc n)
  show ?case
    by (simp, rule wrappedDraw_console) (insert Suc.IH orig hooks, auto)
qed

lemma demo_draws_console:
  "set (console s) \<subseteq> set (console (snd (tableDraw demoHost t opts s)))"
  "set (console s) \<subseteq> set (console (snd (hooksCallAll demoHost rs s)))"
  by (simp_all add: demoHost_def demoDraw_def)

lemma drawOnce_marker:
  assumes draws: "\<And>t opts s. set (console s) \<subseteq> set (console (snd (tableDraw h t opts s)))"
    and m: "fuelMarker \<in> set (console (snd (tableDraw h t drawOptions s)))"
  shows "fuelMarker \<in> set (console (snd (drawOnce h t depth acc s)))"
proof -
  obtain v s1 where d: "tableDraw h t drawOptions s = (v, s1)" by fastforce
  show ?thesis
  proof (cases v)
    case (Inl e)
    then show ?thesis using d m by (simp add: drawOnce_def)
  next
    case (Inr drawn)
    have "set (console s1) \<subseteq> set (console (snd (processResults h (results drawn) (depth + 1) s1)))"
      by (rule processResults_console[OF draws])
    then show ?thesis
      using d m Inr by (auto simp: drawOnce_def split: prod.splits sum.splits)
  qed
qed

text \<open>
  With the wrapper installed, the results of a nested draw are expanded twice, at depth 0
  inside the draw and one level deeper after it: the row linked to the table \<^verbatim>\<open>xyz\<close> with
  quantity 2 queues four quantities for the item, where two are queued when the draw is the
  original one. No fuel is missing in this run.
\<close>

lemma installed_draw_of_plain_table_returns:
  "fst (tableDraw (installed 1 demoHost) ''xyz'' noOptions demoState) = Inr \<lparr>results = [2], roll = 1\<rparr>
   \<and> console (snd (tableDraw (installed 1 demoHost) ''xyz'' noOptions demoState)) = []
   \<and> fst (processResults (installed 1 demoHost) [1] 0 demoState) = Inr [2, 2]
   \<and> console (snd (processResults (installed 1 demoHost) [1] 0 demoState)) = []
   \<and> pendingQuantities (snd (processResults (installed 1 demoHost) [1] 0 demoState)) ''Item.def''
       = Some [1, 1, 1, 1]
   \<and> pendingQuantities (snd (processResults demoHost [1] 0 demoState)) ''Item.def'' = Some [1, 1]"
  by (simp add: wrap_defs run_defs demo_defs)

text \<open>
  C3. The depth bound does not keep the expansion terminating when tables reference each
  other cyclically. The expansion inside the nested draw starts at depth 0 again, so the
  depth never grows along a cycle of tables and the check against the bound is never
  reached: for the table whose draw yields the row that links to it, the installed draw
  asks for more fuel whatever the fuel is.
\<close>

theorem installed_draw_of_cyclic_table_never_returns:
  "heap s 3 = demoHeap 3
   \<Longrightarrow> fuelMarker \<in> set (console (snd (tableDraw (installed n demoHost) ''loop'' opts s)))"
proof (induction n arbitrary: s opts)
  case 0
  show ?case by simp
next
  case (Suc n)
  let ?h = "installed n demoHost"
  let ?p = "\<lparr>formula = ''1'', uuid = ''RollTable.loop'', pname = ''Loop''\<rparr>"
  have draws: "set (console s) \<subseteq> set (console (snd (tableDraw ?h t opts s)))" for t opts s
    by (rule installed_console[OF demo_draws_console])
  have orig: "tableDraw demoHost ''loop'' opts s = (Inr \<lparr>results = [3], roll = 1\<rparr>, s)"
    by (simp add: demoHost_def demoDraw_def)
  have parse: "parseQuantityResult (heap s 3) = Some ?p"
    unfolding Suc.prems by code_simp
  have e: "evaluateFormula ?h (formula ?p) s = (Inr 1, s\<lparr>world := Suc (world s)\<rparr>)"
    by (simp add: evaluateFormula_def demoHost_def demoRoll_def trim_def isSpace_def)
  have f: "resolveUuid ?h (uuid ?p) (s\<lparr>world := Suc (world s)\<rparr>)
      = (Inr (Some (RollTable ''loop'')), s\<lparr>world := Suc (world s)\<rparr>)"
    by (simp add: resolveUuid_def demoHost_def demoResolve_def)
  have inner: "fuelMarker \<in> set (console (snd (tableDraw ?h ''loop'' drawOptions (s\<lparr>world := Suc (world s)\<rparr>))))"
    by (rule Suc.IH) (simp add: Suc.prems)
  have once: "fuelMarker \<in> set (console (snd (drawOnce ?h ''loop'' 0 [] (s\<lparr>world := Suc (world s)\<rparr>))))"
    by (rule drawOnce_marker[OF draws inner])
  have loop: "forLoop (nat 1) (drawOnce ?h ''loop'' 0) [] (s\<lparr>world := Suc (world s)\<rparr>)
      = drawOnce ?h ''loop'' 0 [] (s\<lparr>world := Suc (world s)\<rparr>)"
    by (simp split: prod.splits sum.splits)
  have step: "fuelMarker \<in> set (console (snd (processResult ?h 3 ?p 0 s)))"
    using once
    by (auto simp: processResult_table[OF e _ f] loop MAX_RECURSION_DEPTH_def split: prod.splits sum.splits)
  have run: "fuelMarker \<in> set (console (snd (processResults ?h [3] 0 s)))"
    using step parse by (auto simp: processResults_Cons processResults_Nil split: prod.splits sum.splits)
  have "set (console (snd (processResults ?h (results \<lparr>results = [3], roll = 1\<rparr>) 0 s)))
      \<subseteq> set (console (snd (wrappedDraw ?h (tableDraw demoHost ''loop'') ''loop'' opts s)))"
    by (rule wrappedDraw_console_after[where wrapped = "tableDraw demoHost ''loop''" and s = s
          and opts = opts and ?s1.0 = s])
      (simp_all add: demoHost_def demoDraw_def)
  then show ?case using run by auto
qed

theorem installed_draw_of_cyclic_table_never_returns_witness:
  "heap demoState 3 = demoHeap 3
   \<and> fst (tableDraw demoHost ''loop'' noOptions demoState) = Inr \<lparr>results = [3], roll = 1\<rparr>
   \<and> parseQuantityResult (demoHeap 3) = Some \<lparr>formula = ''1'', uuid = ''RollTable.loop'', pname = ''Loop''\<rparr>
   \<and> fst (fromUuid demoHost ''RollTable.loop'' 0) = Inr (Some (RollTable ''loop''))
   \<and> (\<forall>n. fuelMarker \<in> set (console (snd (tableDraw (installed n demoHost) ''loop'' noOptions demoState))))"
proof -
  have a: "heap demoState 3 = demoHeap 3" by (simp add: demoState_def)
  have b: "fst (tableDraw demoHost ''loop'' noOptions demoState) = Inr \<lparr>results = [3], roll = 1\<rparr>"
    by (simp add: demoHost_def demoDraw_def)
  have c: "parseQuantityResult (demoHeap 3) = Some \<lparr>formula = ''1'', uuid = ''RollTable.loop'', pname = ''Loop''\<rparr>"
    by code_simp
  have d: "fst (fromUuid demoHost ''RollTable.loop'' 0) = Inr (Some (RollTable ''loop''))"
    by (simp add: demoHost_def demoResolve_def)
  show ?thesis
    using installed_draw_of_cyclic_table_never_returns[OF a, of _ noOptions] a b c d by blast
qed

end
